theory Spec2Isabelle
  imports Complex_Main
begin

section \<open>The optimisation model that \<open>solve\<close> assembles\<close>

text \<open>
  \<open>floor.py\<close> builds a Gurobi model: \<open>model.addVar\<close> allocates a variable,
  \<open>model.addConstr\<close> appends a constraint, \<open>model.setObjective\<close> stores the objective.
  The model object is a record that is passed through every call and returned updated.
  A variable is identified by its position in the order of allocation; an expression
  and a constraint are kept as the syntax tree the Python operators build.  A Gurobi
  variable has lower bound 0 unless told otherwise (the source passes \<open>lb=0\<close> for the
  continuous ones), and a binary variable ranges over 0 and 1.
\<close>

type_synonym var = nat

datatype vtype = CONTINUOUS | BINARY

text \<open>
  A Python \<open>float\<close> is a double: a finite number, one of the two infinities, or the
  negative zero, which is kept apart from the zero \<open>Finite 0\<close>.  (No text the program
  reads gives a NaN.)  \<open>Finite r\<close> is the double whose value is the real \<open>r\<close>.
\<close>

datatype float = Finite real | NegZero | PosInf | NegInf

text \<open>
  In an expression \<open>C\<close> is a number the caller passes or the program writes (\<open>p\<close>,
  \<open>1\<close>, \<open>2\<close>), and \<open>F\<close> a float that \<open>parse_match\<close> has read from a constraint's
  text and the program hands to Gurobi as it is.
\<close>

datatype expr =
    V var
  | C real
  | F float
  | Add expr expr
  | Sub expr expr
  | Mul expr expr
  | Div expr real

datatype constr =
    Le expr expr
  | Ge expr expr
  | Eq expr expr
  | Ind var constr  \<comment> \<open>\<open>(v == 1) >> c\<close>\<close>

datatype sense = MINIMIZE | MAXIMIZE

record model =
  vars :: "vtype list"
  objective :: expr
  obj_sense :: sense
  constrs :: "constr list"
  TimeLimit :: real

definition Model :: model where
  "Model = \<lparr>vars = [], objective = C 0, obj_sense = MINIMIZE, constrs = [], TimeLimit = 0\<rparr>"

definition setParam_TimeLimit :: "real \<Rightarrow> model \<Rightarrow> model" where
  "setParam_TimeLimit timeout m = m\<lparr>TimeLimit := timeout\<rparr>"

definition addVar :: "vtype \<Rightarrow> model \<Rightarrow> var \<times> model" where
  "addVar vt m = (length (vars m), m\<lparr>vars := vars m @ [vt]\<rparr>)"

text \<open>\<open>[model.addVar(...) for _ in range(n)]\<close>: the variables in order, and the model.\<close>

fun addVars :: "nat \<Rightarrow> vtype \<Rightarrow> model \<Rightarrow> var list \<times> model" where
  "addVars 0 vt m = ([], m)"
| "addVars (Suc n) vt m =
     (case addVar vt m of (v, m1) \<Rightarrow>
        (case addVars n vt m1 of (vs, m2) \<Rightarrow> (v # vs, m2)))"

definition addConstr :: "constr \<Rightarrow> model \<Rightarrow> model" where
  "addConstr c m = m\<lparr>constrs := constrs m @ [c]\<rparr>"

definition setObjective :: "expr \<Rightarrow> sense \<Rightarrow> model \<Rightarrow> model" where
  "setObjective e s m = m\<lparr>objective := e, obj_sense := s\<rparr>"

subsection \<open>What a model means\<close>

text \<open>
  An infinity is not a number an expression over the reals can take: an expression has
  a value when every float in it is finite, and \<open>eval\<close> is that value.  A constraint
  is satisfied when both its sides have a value and the values compare as it asks; a
  constraint with an infinite float in it is satisfied by no assignment.
\<close>

fun is_finite :: "float \<Rightarrow> bool" where
  "is_finite (Finite r) = True"
| "is_finite NegZero = True"
| "is_finite PosInf = False"
| "is_finite NegInf = False"

fun float_val :: "float \<Rightarrow> real" where
  "float_val (Finite r) = r"
| "float_val NegZero = 0"
| "float_val PosInf = 0"
| "float_val NegInf = 0"

fun valued :: "expr \<Rightarrow> bool" where
  "valued (V v) = True"
| "valued (C c) = True"
| "valued (F f) = is_finite f"
| "valued (Add e f) = (valued e \<and> valued f)"
| "valued (Sub e f) = (valued e \<and> valued f)"
| "valued (Mul e f) = (valued e \<and> valued f)"
| "valued (Div e d) = valued e"

fun eval :: "(var \<Rightarrow> real) \<Rightarrow> expr \<Rightarrow> real" where
  "eval a (V v) = a v"
| "eval a (C c) = c"
| "eval a (F f) = float_val f"
| "eval a (Add e f) = eval a e + eval a f"
| "eval a (Sub e f) = eval a e - eval a f"
| "eval a (Mul e f) = eval a e * eval a f"
| "eval a (Div e d) = eval a e / d"

fun sat :: "(var \<Rightarrow> real) \<Rightarrow> constr \<Rightarrow> bool" where
  "sat a (Le e f) = (valued e \<and> valued f \<and> eval a e \<le> eval a f)"
| "sat a (Ge e f) = (valued e \<and> valued f \<and> eval a e \<ge> eval a f)"
| "sat a (Eq e f) = (valued e \<and> valued f \<and> eval a e = eval a f)"
| "sat a (Ind v c) = (a v = 1 \<longrightarrow> sat a c)"

fun in_domain :: "vtype \<Rightarrow> real \<Rightarrow> bool" where
  "in_domain CONTINUOUS r = (0 \<le> r)"
| "in_domain BINARY r = (r = 0 \<or> r = 1)"

definition feasible :: "model \<Rightarrow> (var \<Rightarrow> real) \<Rightarrow> bool" where
  "feasible m a \<longleftrightarrow>
     list_all (\<lambda>v. in_domain (vars m ! v) (a v)) [0..<length (vars m)] \<and>
     list_all (sat a) (constrs m)"

section \<open>\<open>solve\<close>: variables, objective, bounding box and pairwise separation\<close>

text \<open>The local variables \<open>W, H, w, h, x, y\<close> of \<open>solve\<close>.\<close>

record layout =
  var_W :: var
  var_H :: var
  var_w :: "var list"
  var_h :: "var list"
  var_x :: "var list"
  var_y :: "var list"

text \<open>
  The two constraints of lines 98 and 99, in the order they are added.  Inside the loops
  of \<open>solve\<close> the indices range over \<open>range(N)\<close> and the four lists have length \<open>N\<close>,
  so the reads are in range.
\<close>

definition bounding_constrs :: "layout \<Rightarrow> nat \<Rightarrow> constr list" where
  "bounding_constrs lay i =
     [Le (Add (V (var_x lay ! i)) (V (var_w lay ! i))) (V (var_W lay)),
      Le (Add (V (var_y lay ! i)) (V (var_h lay ! i))) (V (var_H lay))]"

text \<open>The body of the loop over \<open>i\<close> at lines 97 to 99.\<close>

definition add_bounding :: "layout \<Rightarrow> nat \<Rightarrow> model \<Rightarrow> model" where
  "add_bounding lay i m = fold addConstr (bounding_constrs lay i) m"

text \<open>The seven constraints of one pair, lines 109 to 119, in the order they are added.\<close>

definition pair_constrs :: "real \<Rightarrow> layout \<Rightarrow> nat \<Rightarrow> nat \<Rightarrow> var \<Rightarrow> var \<Rightarrow> var \<Rightarrow> var \<Rightarrow> constr list" where
  "pair_constrs p lay i j l r b t =
     [Ind l (Le (Add (Add (V (var_x lay ! i)) (V (var_w lay ! i))) (C p)) (V (var_x lay ! j))),
      Ind r (Le (Add (Add (V (var_x lay ! j)) (V (var_w lay ! j))) (C p)) (V (var_x lay ! i))),
      Ind b (Le (Add (Add (V (var_y lay ! i)) (V (var_h lay ! i))) (C p)) (V (var_y lay ! j))),
      Ind t (Le (Add (Add (V (var_y lay ! j)) (V (var_h lay ! j))) (C p)) (V (var_y lay ! i))),
      Le (Add (V l) (V r)) (C 1),
      Le (Add (V b) (V t)) (C 1),
      Ge (Add (Add (Add (V l) (V r)) (V b)) (V t)) (C 1)]"

text \<open>The body of the inner loop, lines 106 to 119.\<close>

definition add_pair :: "real \<Rightarrow> layout \<Rightarrow> nat \<Rightarrow> nat \<Rightarrow> model \<Rightarrow> model" where
  "add_pair p lay i j m =
     (case addVar BINARY m of (l, m1) \<Rightarrow>
      case addVar BINARY m1 of (r, m2) \<Rightarrow>
      case addVar BINARY m2 of (b, m3) \<Rightarrow>
      case addVar BINARY m3 of (t, m4) \<Rightarrow>
        fold addConstr (pair_constrs p lay i j l r b t) m4)"

text \<open>
  Lines 82 to 119.  \<open>N\<close> is a Python integer; \<open>range(N)\<close> is empty when \<open>N\<close> is
  negative, which \<open>nat N\<close> reproduces.
\<close>

definition build :: "int \<Rightarrow> real \<Rightarrow> real \<Rightarrow> layout \<times> model" where
  "build N p timeout =
     (let n = nat N;
          m0 = setParam_TimeLimit timeout Model in
      case addVar CONTINUOUS m0 of (W, m1) \<Rightarrow>
      case addVar CONTINUOUS m1 of (H, m2) \<Rightarrow>
      case addVars n CONTINUOUS m2 of (w, m3) \<Rightarrow>
      case addVars n CONTINUOUS m3 of (h, m4) \<Rightarrow>
      case addVars n CONTINUOUS m4 of (x, m5) \<Rightarrow>
      case addVars n CONTINUOUS m5 of (y, m6) \<Rightarrow>
        (let lay = \<lparr>var_W = W, var_H = H, var_w = w, var_h = h, var_x = x, var_y = y\<rparr>;
             m7 = setObjective (Mul (C 2) (Add (V W) (V H))) MINIMIZE m6;
             m8 = fold (add_bounding lay) [0..<n] m7;
             m9 = fold (\<lambda>i. fold (add_pair p lay i) [i + 1..<n]) [0..<n] m8
         in (lay, m9)))"

text \<open>The open rectangle of box \<open>i\<close> under an assignment of the variables.\<close>

definition interior :: "layout \<Rightarrow> (var \<Rightarrow> real) \<Rightarrow> nat \<Rightarrow> (real \<times> real) set" where
  "interior lay a i =
     {(px, py). a (var_x lay ! i) < px \<and> px < a (var_x lay ! i) + a (var_w lay ! i) \<and>
                a (var_y lay ! i) < py \<and> py < a (var_y lay ! i) + a (var_h lay ! i)}"

section \<open>The constraint grammar and \<open>parse_match\<close>\<close>

text \<open>
  Strings are lists of bytes, and the model covers ASCII text: \<open>str.lower\<close> maps
  \<open>A\<close> to \<open>Z\<close> onto \<open>a\<close> to \<open>z\<close> and leaves every other byte alone, and \<open>\d\<close> is
  one of the ten ASCII digits.
\<close>

definition lower_char :: "char \<Rightarrow> char" where
  "lower_char c =
     (let n = (of_char c :: nat) in if 65 \<le> n \<and> n \<le> 90 then char_of (n + 32) else c)"

definition lower :: "string \<Rightarrow> string" where
  "lower s = map lower_char s"

definition is_digit :: "char \<Rightarrow> bool" where
  "is_digit c = (let n = (of_char c :: nat) in 48 \<le> n \<and> n \<le> 57)"

text \<open>The character class \<open>[-+e\d.]\<close>.\<close>

definition is_float_char :: "char \<Rightarrow> bool" where
  "is_float_char c \<longleftrightarrow>
     c = CHR ''-'' \<or> c = CHR ''+'' \<or> c = CHR ''e'' \<or> is_digit c \<or> c = CHR ''.''"

text \<open>
  The ten regular expressions of \<open>patterns\<close> are sequences of four kinds of piece: literal
  text, the group \<open>(\d+)\<close>, the group \<open>([-+e\d.]+)\<close> and a group of literal alternatives
  such as \<open>(left|bottom)\<close>.
\<close>

datatype item = Lit string | Digits | Floaty | Alt "string list"

definition starts_with :: "string \<Rightarrow> string \<Rightarrow> bool" where
  "starts_with l s \<longleftrightarrow> take (length l) s = l"

fun first_some :: "'a option list \<Rightarrow> 'a option" where
  "first_some [] = None"
| "first_some (Some x # r) = Some x"
| "first_some (None # r) = first_some r"

text \<open>The lengths a greedy \<open>+\<close> over a character class tries, the longest first.\<close>

definition greedy_lens :: "(char \<Rightarrow> bool) \<Rightarrow> string \<Rightarrow> nat list" where
  "greedy_lens P s = rev [1..<Suc (length (takeWhile P s))]"

text \<open>
  \<open>re.match(pattern, s)\<close> followed by \<open>.groups()\<close>: the pattern is matched at the start
  of \<open>s\<close> and need not reach its end.  A \<open>+\<close> takes as much as it can and gives back one
  character at a time when the rest of the pattern fails; alternatives are tried in the
  order written.  The result is the list of the groups' texts.
\<close>

fun re_match :: "item list \<Rightarrow> string \<Rightarrow> string list option" where
  "re_match [] s = Some []"
| "re_match (Lit l # r) s =
     (if starts_with l s then re_match r (drop (length l) s) else None)"
| "re_match (Digits # r) s =
     first_some (map (\<lambda>n. map_option ((#) (take n s)) (re_match r (drop n s)))
                     (greedy_lens is_digit s))"
| "re_match (Floaty # r) s =
     first_some (map (\<lambda>n. map_option ((#) (take n s)) (re_match r (drop n s)))
                     (greedy_lens is_float_char s))"
| "re_match (Alt alts # r) s =
     first_some (map (\<lambda>a. if starts_with a s
                            then map_option ((#) a) (re_match r (drop (length a) s))
                            else None) alts)"

text \<open>The dictionary \<open>patterns\<close>, lines 5 to 16.\<close>

definition pattern_table :: "(string \<times> item list) list" where
  "pattern_table =
     [(''width'', [Lit ''box '', Digits, Lit '' has width of '', Floaty]),
      (''height'', [Lit ''box '', Digits, Lit '' has height of '', Floaty]),
      (''position'',
         [Lit ''box '', Digits, Lit '' is to the '', Alt [''left'', ''bottom''],
          Lit '' of box '', Digits]),
      (''area'', [Lit ''box '', Digits, Lit '' has area of at least '', Floaty]),
      (''ratio'',
         [Lit ''box '', Digits, Lit '' has aspect ratio of '', Alt [''at least'', ''at most''],
          Lit '' '', Floaty]),
      (''horizontal_align'',
         [Alt [''top'', ''center'', ''bottom''], Lit '' of box '', Digits,
          Lit '' aligns horizontally with '', Alt [''top'', ''center'', ''bottom''],
          Lit '' of box '', Digits]),
      (''vertical_align'',
         [Alt [''left'', ''center'', ''right''], Lit '' of box '', Digits,
          Lit '' aligns vertically with '', Alt [''left'', ''center'', ''right''],
          Lit '' of box '', Digits]),
      (''symmetry'',
         [Lit ''box '', Digits, Lit '' and box '', Digits,
          Lit '' are symmetric through axis '', Alt [''x'', ''y''], Lit ''='', Floaty]),
      (''similarity'',
         [Lit ''box '', Digits, Lit '' is '', Floaty, Lit ''-scaled translate of box '', Digits]),
      (''containment'',
         [Lit ''box '', Digits, Lit '' contains a point ('', Floaty, Lit '','', Floaty,
          Lit '')''])]"

definition patterns :: "string \<Rightarrow> item list option" where
  "patterns = map_of pattern_table"

text \<open>The ten kinds: the keys of \<open>patterns\<close>.\<close>

definition kinds :: "string list" where
  "kinds = map fst pattern_table"

subsection \<open>Python values, exceptions and the conversions \<open>int\<close> and \<open>float\<close>\<close>

datatype error =
    KeyError string
  | Exception string
  | ValueError
  | IndexError
  | UnboundLocalError
  | AttributeError

datatype pyval = PInt nat | PFloat float | PStr string

definition and_then :: "error + 'a \<Rightarrow> ('a \<Rightarrow> error + 'b) \<Rightarrow> error + 'b" where
  "and_then r f = (case r of Inl e \<Rightarrow> Inl e | Inr v \<Rightarrow> f v)"

definition digit_val :: "char \<Rightarrow> int" where
  "digit_val c = of_char c - 48"

definition dec :: "string \<Rightarrow> int" where
  "dec ds = foldl (\<lambda>a c. 10 * a + digit_val c) 0 ds"

text \<open>
  \<open>int(s)\<close> on text without sign, blank or underscore: the text must be a non-empty run
  of digits.  The interpreter refuses a text of more than \<open>sys.get_int_max_str_digits()\<close>
  digits, leading zeros counted, with \<open>ValueError\<close>; the limit is 4300 unless the
  interpreter is started with another.
\<close>

definition int_max_str_digits :: nat where
  "int_max_str_digits = 4300"

definition int_py :: "string \<Rightarrow> error + nat" where
  "int_py s =
     (if s \<noteq> [] \<and> list_all is_digit s \<and> length s \<le> int_max_str_digits
      then Inr (nat (dec s)) else Inl ValueError)"

definition split_sign :: "string \<Rightarrow> bool \<times> string" where
  "split_sign s =
     (case s of
        [] \<Rightarrow> (False, [])
      | c # r \<Rightarrow> if c = CHR ''-'' then (True, r) else if c = CHR ''+'' then (False, r)
                 else (False, s))"

text \<open>
  \<open>float\<close> rounds the number it reads to the nearest double, a tie to the double with
  an even significand.  \<open>to_double neg a b\<close> is the double for the fraction \<open>a / b\<close>
  (\<open>a \<ge> 0\<close>, \<open>b > 0\<close>) with the sign \<open>neg\<close>.  The significand \<open>m\<close> has 53 bits and the
  exponent \<open>e\<close> of its last bit is at least \<open>-1074\<close>, below which the doubles are no
  finer; a number that rounds to \<open>2 ^ 1024\<close> or more is an infinity, and one that rounds
  to nothing is a zero of its sign.
\<close>

function bit_length :: "int \<Rightarrow> int" where
  "bit_length n = (if n \<le> 0 then 0 else 1 + bit_length (n div 2))"
  by pat_completeness auto

termination
  by (relation "measure nat") auto

declare bit_length.simps [simp del]

text \<open>\<open>a / b\<close> to the nearest integer, a tie to the even one.\<close>

definition round_even :: "int \<Rightarrow> int \<Rightarrow> int" where
  "round_even a b =
     (let q = a div b; r = a mod b
      in if 2 * r < b then q else if b < 2 * r then q + 1 else if even q then q else q + 1)"

text \<open>The fraction \<open>(a / b) / 2 ^ e\<close>, as numerator and denominator.\<close>

definition scaled :: "int \<Rightarrow> int \<Rightarrow> int \<Rightarrow> int \<times> int" where
  "scaled a b e = (if 0 \<le> e then (a, b * 2 ^ nat e) else (a * 2 ^ nat (- e), b))"

text \<open>The \<open>k\<close> with \<open>2 ^ k \<le> a / b < 2 ^ (k + 1)\<close>, for \<open>a\<close> and \<open>b\<close> positive.\<close>

definition floor_log2 :: "int \<Rightarrow> int \<Rightarrow> int" where
  "floor_log2 a b =
     (let k = bit_length a - bit_length b
      in case scaled a b k of (a', b') \<Rightarrow> if b' \<le> a' then k else k - 1)"

definition to_double :: "bool \<Rightarrow> int \<Rightarrow> int \<Rightarrow> float" where
  "to_double neg a b =
     (if a = 0 then (if neg then NegZero else Finite 0)
      else
        (let e = max (floor_log2 a b - 52) (- 1074);
             m = (case scaled a b e of (a', b') \<Rightarrow> round_even a' b')
         in if m = 0 then (if neg then NegZero else Finite 0)
            else
              (case scaled m 1 (- e) of (u, v) \<Rightarrow>
                 if 2 ^ 1024 * v \<le> u then (if neg then NegInf else PosInf)
                 else Finite (if neg then - (real_of_int u / real_of_int v)
                              else real_of_int u / real_of_int v))))"

text \<open>
  The double for the decimal number with sign \<open>neg\<close>, the digits \<open>ip\<close> before the
  point, the digits \<open>fp\<close> after it and the exponent \<open>e\<close>.
\<close>

definition decimal :: "bool \<Rightarrow> string \<Rightarrow> string \<Rightarrow> int \<Rightarrow> float" where
  "decimal neg ip fp e =
     (let k = e - int (length fp)
      in if 0 \<le> k then to_double neg (dec (ip @ fp) * 10 ^ nat k) 1
         else to_double neg (dec (ip @ fp)) (10 ^ nat (- k)))"

text \<open>
  \<open>float(s)\<close> on text over the characters of \<open>[-+e\d.]\<close> (the only text \<open>parse_match\<close>
  passes to it): an optional sign, digits with an optional point, or a point followed by
  digits, then an optional exponent \<open>e\<close> with optional sign and digits.  Anything else
  raises \<open>ValueError\<close>.  There is no limit on the number of digits.
\<close>

definition float_py :: "string \<Rightarrow> error + float" where
  "float_py s =
     (case split_sign s of (neg, s1) \<Rightarrow>
        (let ip = takeWhile is_digit s1;
             s2 = dropWhile is_digit s1;
             has_dot = (s2 \<noteq> [] \<and> hd s2 = CHR ''.'');
             fp = (if has_dot then takeWhile is_digit (tl s2) else []);
             s3 = (if has_dot then dropWhile is_digit (tl s2) else s2)
         in if ip = [] \<and> fp = [] then Inl ValueError
            else (case s3 of
                    [] \<Rightarrow> Inr (decimal neg ip fp 0)
                  | c # s4 \<Rightarrow>
                      if c \<noteq> CHR ''e'' then Inl ValueError
                      else (case split_sign s4 of (eneg, ed) \<Rightarrow>
                              if ed \<noteq> [] \<and> list_all is_digit ed
                              then Inr (decimal neg ip fp (if eneg then - dec ed else dec ed))
                              else Inl ValueError))))"

datatype conv = CInt | CFloat | CStr

definition conv1 :: "conv \<Rightarrow> string \<Rightarrow> error + pyval" where
  "conv1 c g =
     (case c of
        CInt \<Rightarrow> and_then (int_py g) (\<lambda>n. Inr (PInt n))
      | CFloat \<Rightarrow> and_then (float_py g) (\<lambda>r. Inr (PFloat r))
      | CStr \<Rightarrow> Inr (PStr g))"

text \<open>
  One branch of \<open>parse_match\<close> converts the groups from left to right, as
  \<open>int(match[0]), match[1], int(match[2])\<close> does; the first conversion that raises ends
  the call.
\<close>

fun convert :: "conv list \<Rightarrow> string list \<Rightarrow> error + pyval list" where
  "convert [] gs = Inr []"
| "convert (c # cs) [] = Inl IndexError"
| "convert (c # cs) (g # gs) =
     and_then (conv1 c g) (\<lambda>v. and_then (convert cs gs) (\<lambda>vs. Inr (v # vs)))"

text \<open>Lines 32 to 77.  A key that is missing from \<open>patterns\<close> raises \<open>KeyError\<close>.\<close>

definition parse_match :: "string \<Rightarrow> string \<Rightarrow> error + pyval list" where
  "parse_match constraint_type constraint =
     (let ct = lower constraint_type;
          c = lower constraint
      in case patterns ct of
           None \<Rightarrow> Inl (KeyError ct)
         | Some pat \<Rightarrow>
             (case re_match pat c of
                None \<Rightarrow> Inl (Exception ''Invalid constraint'')
              | Some match \<Rightarrow>
                  if ct = ''width'' then convert [CInt, CFloat] match
                  else if ct = ''height'' then convert [CInt, CFloat] match
                  else if ct = ''position'' then convert [CInt, CStr, CInt] match
                  else if ct = ''area'' then convert [CInt, CFloat] match
                  else if ct = ''ratio'' then convert [CInt, CStr, CFloat] match
                  else if ct = ''horizontal_align'' then convert [CStr, CInt, CStr, CInt] match
                  else if ct = ''vertical_align'' then convert [CStr, CInt, CStr, CInt] match
                  else if ct = ''symmetry'' then convert [CInt, CInt, CStr, CFloat] match
                  else if ct = ''similarity'' then convert [CInt, CFloat, CInt] match
                  else if ct = ''containment'' then convert [CInt, CFloat, CFloat] match
                  else Inl (Exception ''Invalid constraint'')))"

section \<open>The constraint compiler \<open>parse_constraint\<close>\<close>

text \<open>
  \<open>xs[i]\<close> on a Python list with a non-negative index: \<open>IndexError\<close> when \<open>i\<close> is not
  below the length.  The box numbers come from \<open>(\d+)\<close> and are never negative.
\<close>

definition var_at :: "var list \<Rightarrow> nat \<Rightarrow> error + expr" where
  "var_at xs i = (if i < length xs then Inr (V (xs ! i)) else Inl IndexError)"

text \<open>
  The \<open>match\<close> statements of lines 145 to 158 and 162 to 175.  They have no default
  case: a keyword outside the three leaves the name unbound, and its use raises.
\<close>

definition y_edge :: "layout \<Rightarrow> string \<Rightarrow> nat \<Rightarrow> error + expr" where
  "y_edge lay align box =
     (if align = ''top'' then
        and_then (var_at (var_y lay) box) (\<lambda>y. and_then (var_at (var_h lay) box) (\<lambda>h.
          Inr (Add y h)))
      else if align = ''center'' then
        and_then (var_at (var_y lay) box) (\<lambda>y. and_then (var_at (var_h lay) box) (\<lambda>h.
          Inr (Add y (Div h 2))))
      else if align = ''bottom'' then var_at (var_y lay) box
      else Inl UnboundLocalError)"

definition x_edge :: "layout \<Rightarrow> string \<Rightarrow> nat \<Rightarrow> error + expr" where
  "x_edge lay align box =
     (if align = ''left'' then var_at (var_x lay) box
      else if align = ''center'' then
        and_then (var_at (var_x lay) box) (\<lambda>x. and_then (var_at (var_w lay) box) (\<lambda>w.
          Inr (Add x (Div w 2))))
      else if align = ''right'' then
        and_then (var_at (var_x lay) box) (\<lambda>x. and_then (var_at (var_w lay) box) (\<lambda>w.
          Inr (Add x w)))
      else Inl UnboundLocalError)"

text \<open>
  The branches of \<open>parse_constraint\<close>, lines 121 to 194, one definition each: the
  tuple \<open>parse_match\<close> returned is unpacked and the constraints are added.  A tuple of
  the wrong shape cannot be unpacked (\<open>ValueError\<close>); \<open>parse_match\<close> never returns one
  for the kind it was asked.
\<close>

definition add_width :: "layout \<Rightarrow> pyval list \<Rightarrow> model \<Rightarrow> error + model" where
  "add_width lay parsed m =
     (case parsed of
        [PInt box, PFloat width] \<Rightarrow>
          and_then (var_at (var_w lay) box) (\<lambda>w.
            Inr (addConstr (Eq w (F width)) m))
      | _ \<Rightarrow> Inl ValueError)"

definition add_height :: "layout \<Rightarrow> pyval list \<Rightarrow> model \<Rightarrow> error + model" where
  "add_height lay parsed m =
     (case parsed of
        [PInt box, PFloat height] \<Rightarrow>
          and_then (var_at (var_h lay) box) (\<lambda>h.
            Inr (addConstr (Eq h (F height)) m))
      | _ \<Rightarrow> Inl ValueError)"

definition add_position :: "layout \<Rightarrow> real \<Rightarrow> pyval list \<Rightarrow> model \<Rightarrow> error + model" where
  "add_position lay p parsed m =
     (case parsed of
        [PInt box1, PStr position, PInt box2] \<Rightarrow>
          if position = ''left'' then
            and_then (var_at (var_x lay) box1) (\<lambda>x1.
            and_then (var_at (var_w lay) box1) (\<lambda>w1.
            and_then (var_at (var_x lay) box2) (\<lambda>x2.
              Inr (addConstr (Le (Add (Add x1 w1) (C p)) x2) m))))
          else
            and_then (var_at (var_y lay) box1) (\<lambda>y1.
            and_then (var_at (var_h lay) box1) (\<lambda>h1.
            and_then (var_at (var_y lay) box2) (\<lambda>y2.
              Inr (addConstr (Le (Add (Add y1 h1) (C p)) y2) m))))
      | _ \<Rightarrow> Inl ValueError)"

definition add_area :: "layout \<Rightarrow> pyval list \<Rightarrow> model \<Rightarrow> error + model" where
  "add_area lay parsed m =
     (case parsed of
        [PInt box, PFloat area] \<Rightarrow>
          and_then (var_at (var_w lay) box) (\<lambda>w.
          and_then (var_at (var_h lay) box) (\<lambda>h.
            Inr (addConstr (Ge (Mul w h) (F area)) m)))
      | _ \<Rightarrow> Inl ValueError)"

definition add_ratio :: "layout \<Rightarrow> pyval list \<Rightarrow> model \<Rightarrow> error + model" where
  "add_ratio lay parsed m =
     (case parsed of
        [PInt box, PStr ratio_type, PFloat ratio] \<Rightarrow>
          if ratio_type = ''at least'' then
            and_then (var_at (var_w lay) box) (\<lambda>w.
            and_then (var_at (var_h lay) box) (\<lambda>h.
              Inr (addConstr (Ge w (Mul (F ratio) h)) m)))
          else
            and_then (var_at (var_w lay) box) (\<lambda>w.
            and_then (var_at (var_h lay) box) (\<lambda>h.
              Inr (addConstr (Le w (Mul (F ratio) h)) m)))
      | _ \<Rightarrow> Inl ValueError)"

definition add_horizontal_align :: "layout \<Rightarrow> pyval list \<Rightarrow> model \<Rightarrow> error + model" where
  "add_horizontal_align lay parsed m =
     (case parsed of
        [PStr align1, PInt box1, PStr align2, PInt box2] \<Rightarrow>
          and_then (y_edge lay align1 box1) (\<lambda>equation1.
          and_then (y_edge lay align2 box2) (\<lambda>equation2.
            Inr (addConstr (Eq equation1 equation2) m)))
      | _ \<Rightarrow> Inl ValueError)"

definition add_vertical_align :: "layout \<Rightarrow> pyval list \<Rightarrow> model \<Rightarrow> error + model" where
  "add_vertical_align lay parsed m =
     (case parsed of
        [PStr align1, PInt box1, PStr align2, PInt box2] \<Rightarrow>
          and_then (x_edge lay align1 box1) (\<lambda>equation1.
          and_then (x_edge lay align2 box2) (\<lambda>equation2.
            Inr (addConstr (Eq equation1 equation2) m)))
      | _ \<Rightarrow> Inl ValueError)"

definition add_symmetry :: "layout \<Rightarrow> pyval list \<Rightarrow> model \<Rightarrow> error + model" where
  "add_symmetry lay parsed m =
     (case parsed of
        [PInt box1, PInt box2, PStr axis, PFloat axis_value] \<Rightarrow>
          if axis = ''x'' then
            and_then (var_at (var_x lay) box1) (\<lambda>x1.
            and_then (var_at (var_w lay) box1) (\<lambda>w1.
            and_then (var_at (var_x lay) box2) (\<lambda>x2.
            and_then (var_at (var_w lay) box2) (\<lambda>w2.
              Inr (addConstr (Eq (Sub (F axis_value) (Add x1 (Div w1 2)))
                                 (Sub (Add x2 (Div w2 2)) (F axis_value))) m)))))
          else
            and_then (var_at (var_y lay) box1) (\<lambda>y1.
            and_then (var_at (var_h lay) box1) (\<lambda>h1.
            and_then (var_at (var_y lay) box2) (\<lambda>y2.
            and_then (var_at (var_h lay) box2) (\<lambda>h2.
              Inr (addConstr (Eq (Sub (F axis_value) (Add y1 (Div h1 2)))
                                 (Sub (Add y2 (Div h2 2)) (F axis_value))) m)))))
      | _ \<Rightarrow> Inl ValueError)"

definition add_similarity :: "layout \<Rightarrow> pyval list \<Rightarrow> model \<Rightarrow> error + model" where
  "add_similarity lay parsed m =
     (case parsed of
        [PInt box1, PFloat scale, PInt box2] \<Rightarrow>
          and_then (var_at (var_w lay) box1) (\<lambda>w1.
          and_then (var_at (var_w lay) box2) (\<lambda>w2.
          and_then (var_at (var_h lay) box1) (\<lambda>h1.
          and_then (var_at (var_h lay) box2) (\<lambda>h2.
            Inr (addConstr (Eq h1 (Mul (F scale) h2))
                  (addConstr (Eq w1 (Mul (F scale) w2)) m))))))
      | _ \<Rightarrow> Inl ValueError)"

definition add_containment :: "layout \<Rightarrow> pyval list \<Rightarrow> model \<Rightarrow> error + model" where
  "add_containment lay parsed m =
     (case parsed of
        [PInt box, PFloat x1, PFloat y1] \<Rightarrow>
          and_then (var_at (var_x lay) box) (\<lambda>x.
          and_then (var_at (var_y lay) box) (\<lambda>y.
          and_then (var_at (var_w lay) box) (\<lambda>w.
          and_then (var_at (var_h lay) box) (\<lambda>h.
            Inr (addConstr (Ge (Add y h) (F y1))
                  (addConstr (Ge (Add x w) (F x1))
                    (addConstr (Le y (F y1))
                      (addConstr (Le x (F x1)) m))))))))
      | _ \<Rightarrow> Inl ValueError)"

text \<open>
  The dispatch of \<open>parse_constraint\<close>.  The kind is compared as it was passed, without
  \<open>lower\<close>; the last branch is line 194.
\<close>

definition parse_constraint ::
    "layout \<Rightarrow> real \<Rightarrow> string \<Rightarrow> string \<Rightarrow> model \<Rightarrow> error + model" where
  "parse_constraint lay p constraint_type constraint m =
     (if constraint_type = ''width'' then
        and_then (parse_match constraint_type constraint) (\<lambda>parsed. add_width lay parsed m)
      else if constraint_type = ''height'' then
        and_then (parse_match constraint_type constraint) (\<lambda>parsed. add_height lay parsed m)
      else if constraint_type = ''position'' then
        and_then (parse_match constraint_type constraint) (\<lambda>parsed. add_position lay p parsed m)
      else if constraint_type = ''area'' then
        and_then (parse_match constraint_type constraint) (\<lambda>parsed. add_area lay parsed m)
      else if constraint_type = ''ratio'' then
        and_then (parse_match constraint_type constraint) (\<lambda>parsed. add_ratio lay parsed m)
      else if constraint_type = ''horizontal_align'' then
        and_then (parse_match constraint_type constraint)
          (\<lambda>parsed. add_horizontal_align lay parsed m)
      else if constraint_type = ''vertical_align'' then
        and_then (parse_match constraint_type constraint)
          (\<lambda>parsed. add_vertical_align lay parsed m)
      else if constraint_type = ''symmetry'' then
        and_then (parse_match constraint_type constraint) (\<lambda>parsed. add_symmetry lay parsed m)
      else if constraint_type = ''similarity'' then
        and_then (parse_match constraint_type constraint) (\<lambda>parsed. add_similarity lay parsed m)
      else if constraint_type = ''containment'' then
        and_then (parse_match constraint_type constraint)
          (\<lambda>parsed. add_containment lay parsed m)
      else Inl (Exception (''Invalid constraint: '' @ constraint)))"

text \<open>The loop of lines 197 and 198: the first constraint that raises ends it.\<close>

fun compile :: "layout \<Rightarrow> real \<Rightarrow> (string \<times> string) list \<Rightarrow> model \<Rightarrow> error + model" where
  "compile lay p [] m = Inr m"
| "compile lay p ((constraint_type, constraint) # rest) m =
     and_then (parse_constraint lay p constraint_type constraint m) (compile lay p rest)"

section \<open>\<open>solve\<close>: optimisation and the result\<close>

text \<open>
  The solver is outside the repository.  Its call \<open>model.optimize()\<close> is a parameter
  of \<open>solve\<close>: given the model it answers with a status and, when it holds a solution,
  the value \<open>.X\<close> of every variable.  \<open>model.objVal\<close> is the objective at that
  solution.  Reading \<open>.X\<close> or \<open>objVal\<close> when there is no solution raises
  \<open>AttributeError\<close>.  Of the status codes the source names \<open>OPTIMAL\<close> and
  \<open>INFEASIBLE\<close>.
\<close>

datatype status = OPTIMAL | INFEASIBLE | INF_OR_UNBD | UNBOUNDED | TIME_LIMIT | OTHER nat

type_synonym backend = "model \<Rightarrow> status \<times> (var \<Rightarrow> real) option"

type_synonym result =
  "real \<times> real \<times> real \<times> real list \<times> real list \<times> real list \<times> real list \<times> status"

datatype event = Optimize | Print string

text \<open>
  What a call can change outside its own model: the list object the caller passed as
  \<open>constraints\<close>, and the trace of calls to the solver and of printed lines.
\<close>

record world =
  constraints :: "(string \<times> string) list"
  trace :: "event list"

text \<open>Lines 211 to 220.\<close>

definition extract_result :: "layout \<Rightarrow> model \<Rightarrow> status \<Rightarrow> (var \<Rightarrow> real) option \<Rightarrow> error + result" where
  "extract_result lay m st sol =
     (case sol of
        None \<Rightarrow> Inl AttributeError
      | Some X \<Rightarrow>
          Inr (eval X (objective m), X (var_W lay), X (var_H lay),
               map X (var_x lay), map X (var_y lay), map X (var_w lay), map X (var_h lay),
               st))"

text \<open>Lines 80 to 220.\<close>

definition solve :: "backend \<Rightarrow> int \<Rightarrow> real \<Rightarrow> real \<Rightarrow> world \<Rightarrow> (error + result) \<times> world" where
  "solve optimize N p timeout wd =
     (case build N p timeout of (lay, m) \<Rightarrow>
        (case compile lay p (constraints wd) m of
           Inl e \<Rightarrow> (Inl e, wd)
         | Inr m' \<Rightarrow>
             (case optimize m' of (st, sol) \<Rightarrow>
                (let wd1 = wd\<lparr>trace := trace wd @ [Optimize]\<rparr> in
                 if st = INFEASIBLE then (Inl (Exception ''Infeasible model''), wd1)
                 else
                   (let wd2 = (if st \<noteq> OPTIMAL
                               then wd1\<lparr>trace := trace wd1 @ [Print ''Model is not optimal'']\<rparr>
                               else wd1)
                    in (extract_result lay m' st sol, wd2))))))"

section \<open>Notions used to state the properties\<close>

text \<open>The pairs \<open>(i, j)\<close> in the order the loops of lines 103 and 104 visit them.\<close>

definition pairs :: "nat \<Rightarrow> (nat \<times> nat) list" where
  "pairs n = concat (map (\<lambda>i. map (Pair i) [i + 1..<n]) [0..<n])"

text \<open>
  The seven constraints of the \<open>k\<close>-th pair visited, over the four variables allocated
  for it: the variables \<open>base + 4 * k\<close> to \<open>base + 4 * k + 3\<close>.
\<close>

definition pair_block :: "real \<Rightarrow> layout \<Rightarrow> (nat \<times> nat) list \<Rightarrow> nat \<Rightarrow> nat \<Rightarrow> constr list" where
  "pair_block p lay ps base k =
     pair_constrs p lay (fst (ps ! k)) (snd (ps ! k))
       (base + 4 * k) (base + 4 * k + 1) (base + 4 * k + 2) (base + 4 * k + 3)"

text \<open>The variables that \<open>solve\<close> allocates for \<open>n\<close> boxes, by position.\<close>

definition layout_of :: "nat \<Rightarrow> layout" where
  "layout_of n =
     \<lparr>var_W = 0, var_H = 1, var_w = [2..<2 + n], var_h = [2 + n..<2 + 2 * n],
      var_x = [2 + 2 * n..<2 + 3 * n], var_y = [2 + 3 * n..<2 + 4 * n]\<rparr>"

text \<open>\<open>m'\<close> is \<open>m\<close> with constraints appended and nothing else changed.\<close>

definition extends :: "model \<Rightarrow> model \<Rightarrow> bool" where
  "extends m m' \<longleftrightarrow> (\<exists>cs. m' = m\<lparr>constrs := constrs m @ cs\<rparr>)"


text \<open>
  The literal grammar of a kind, read off its pattern.  \<open>grammar pat s gs\<close> holds when
  the whole string \<open>s\<close> is the pieces of \<open>pat\<close> in order and nothing else: a literal
  as it is written, an \<open><int>\<close> a non-empty run of digits, a \<open><float>\<close> a non-empty run
  of the characters of \<open>[-+e\d.]\<close>, a keyword one of its alternatives; \<open>gs\<close> are the
  texts of the fields, in order.
\<close>

fun grammar :: "item list \<Rightarrow> string \<Rightarrow> string list \<Rightarrow> bool" where
  "grammar [] s gs \<longleftrightarrow> s = [] \<and> gs = []"
| "grammar (Lit l # r) s gs \<longleftrightarrow> starts_with l s \<and> grammar r (drop (length l) s) gs"
| "grammar (Digits # r) s gs \<longleftrightarrow>
     (case gs of
        [] \<Rightarrow> False
      | g # gs' \<Rightarrow> g \<noteq> [] \<and> list_all is_digit g \<and> starts_with g s \<and>
                  grammar r (drop (length g) s) gs')"
| "grammar (Floaty # r) s gs \<longleftrightarrow>
     (case gs of
        [] \<Rightarrow> False
      | g # gs' \<Rightarrow> g \<noteq> [] \<and> list_all is_float_char g \<and> starts_with g s \<and>
                  grammar r (drop (length g) s) gs')"
| "grammar (Alt alts # r) s gs \<longleftrightarrow>
     (case gs of
        [] \<Rightarrow> False
      | g # gs' \<Rightarrow> g \<in> set alts \<and> starts_with g s \<and> grammar r (drop (length g) s) gs')"

text \<open>
  The type of each field of the tuple a kind parses to, in the order of the grammar:
  an \<open><int>\<close> is an integer, a \<open><float>\<close> a real, a keyword a string.
\<close>

fun group_convs :: "item list \<Rightarrow> conv list" where
  "group_convs [] = []"
| "group_convs (Lit l # r) = group_convs r"
| "group_convs (Digits # r) = CInt # group_convs r"
| "group_convs (Floaty # r) = CFloat # group_convs r"
| "group_convs (Alt alts # r) = CStr # group_convs r"




text \<open>
  An optimal assignment of a model: feasible, and no feasible assignment has a better
  objective.  This is what the solver promises with the status \<open>OPTIMAL\<close>.
\<close>

definition optimal :: "model \<Rightarrow> (var \<Rightarrow> real) \<Rightarrow> bool" where
  "optimal m a \<longleftrightarrow>
     feasible m a \<and>
     (\<forall>b. feasible m b \<longrightarrow>
        (case obj_sense m of
           MINIMIZE \<Rightarrow> eval a (objective m) \<le> eval b (objective m)
         | MAXIMIZE \<Rightarrow> eval b (objective m) \<le> eval a (objective m)))"

section \<open>The model that \<open>solve\<close> builds\<close>

lemma addVars_eq:
  "addVars n vt m =
     ([length (vars m)..<length (vars m) + n], m\<lparr>vars := vars m @ replicate n vt\<rparr>)"
proof (induction n arbitrary: m)
  case 0
  then show ?case by simp
next
  case (Suc n)
  show ?case
    by (simp add: Suc addVar_def upt_conv_Cons replicate_app_Cons_same)
qed

lemma fold_addConstr: "fold addConstr cs m = m\<lparr>constrs := constrs m @ cs\<rparr>"
  by (induction cs arbitrary: m) (simp_all add: addConstr_def)

lemma add_pair_eq:
  "add_pair p lay i j m =
     m\<lparr>vars := vars m @ replicate 4 BINARY,
       constrs := constrs m @
         pair_constrs p lay i j (length (vars m)) (length (vars m) + 1)
           (length (vars m) + 2) (length (vars m) + 3)\<rparr>"
  by (simp add: add_pair_def addVar_def fold_addConstr numeral_eq_Suc)

lemma fold_concat: "fold f (concat xss) = fold (fold f) xss"
  by (induction xss) simp_all

lemma nested_loop_pairs:
  "fold (\<lambda>i. fold (f i) [i + 1..<n]) is m = fold (\<lambda>(i, j). f i j) (concat (map (\<lambda>i. map (Pair i) [i + 1..<n]) is)) m"
  by (induction "is" arbitrary: m) (simp_all add: fold_map comp_def)

lemma fold_add_pair:
  "fold (\<lambda>(i, j). add_pair p lay i j) ps m =
     m\<lparr>vars := vars m @ replicate (4 * length ps) BINARY,
       constrs := constrs m @ concat (map (pair_block p lay ps (length (vars m))) [0..<length ps])\<rparr>"
proof (induction ps rule: rev_induct)
  case Nil
  then show ?case by simp
next
  case (snoc q ps)
  obtain i j where q: "q = (i, j)" by (cases q)
  have blocks: "map (pair_block p lay (ps @ [q]) b) [0..<length ps] = map (pair_block p lay ps b) [0..<length ps]" for b
    by (simp add: pair_block_def nth_append)
  have last: "pair_block p lay (ps @ [q]) b (length ps) =
      pair_constrs p lay i j (b + 4 * length ps) (b + 4 * length ps + 1) (b + 4 * length ps + 2) (b + 4 * length ps + 3)" for b
    by (simp add: pair_block_def q)
  have rep: "replicate (4 * length ps) BINARY @ replicate 4 BINARY = replicate (4 + 4 * length ps) BINARY"
    by (simp add: replicate_add[symmetric])
  have "fold (\<lambda>(i, j). add_pair p lay i j) (ps @ [q]) m =
      add_pair p lay i j (fold (\<lambda>(i, j). add_pair p lay i j) ps m)"
    by (simp add: q)
  also have "\<dots> = add_pair p lay i j
      (m\<lparr>vars := vars m @ replicate (4 * length ps) BINARY,
        constrs := constrs m @ concat (map (pair_block p lay ps (length (vars m))) [0..<length ps])\<rparr>)"
    by (simp only: snoc)
  also have "\<dots> = m\<lparr>vars := vars m @ replicate (4 * length (ps @ [q])) BINARY,
       constrs := constrs m @
         concat (map (pair_block p lay (ps @ [q]) (length (vars m))) [0..<length (ps @ [q])])\<rparr>"
    by (simp add: add_pair_eq blocks last rep add.commute add.left_commute)
  finally show ?case .
qed

lemma fold_add_bounding:
  "fold (add_bounding lay) is m = m\<lparr>constrs := constrs m @ concat (map (bounding_constrs lay) is)\<rparr>"
  by (induction "is" arbitrary: m) (simp_all add: add_bounding_def fold_addConstr)


lemma build_eq:
  "build N p timeout =
     (layout_of (nat N),
      \<lparr>vars = replicate (2 + 4 * nat N) CONTINUOUS @ replicate (4 * length (pairs (nat N))) BINARY,
       objective = Mul (C 2) (Add (V 0) (V 1)),
       obj_sense = MINIMIZE,
       constrs = concat (map (bounding_constrs (layout_of (nat N))) [0..<nat N]) @
                 concat (map (pair_block p (layout_of (nat N)) (pairs (nat N)) (2 + 4 * nat N))
                             [0..<length (pairs (nat N))]),
       TimeLimit = timeout\<rparr>)"
proof -
  have rep: "[CONTINUOUS, CONTINUOUS] @ replicate n CONTINUOUS @ replicate n CONTINUOUS @
      replicate n CONTINUOUS @ replicate n CONTINUOUS = replicate (2 + 4 * n) CONTINUOUS" for n
    by (simp add: replicate_add[symmetric] numeral_eq_Suc)
  have e: "2 + n + n = 2 + 2 * n" "2 + n + n + n = 2 + 3 * n" "2 + n + n + n + n = 2 + 4 * n"
    for n :: nat by simp_all
  define n where "n = nat N"
  define m2 where "m2 = \<lparr>vars = [CONTINUOUS, CONTINUOUS], objective = C 0, obj_sense = MINIMIZE,
    constrs = [], TimeLimit = timeout\<rparr>"
  have s2: "addVar CONTINUOUS (setParam_TimeLimit timeout Model) = (0, m1) \<Longrightarrow>
     addVar CONTINUOUS m1 = (1, m2)" for m1
    by (auto simp: addVar_def setParam_TimeLimit_def Model_def m2_def)
  have s1: "addVar CONTINUOUS (setParam_TimeLimit timeout Model) =
     (0, \<lparr>vars = [CONTINUOUS], objective = C 0, obj_sense = MINIMIZE,
    constrs = [], TimeLimit = timeout\<rparr>)"
    by (simp add: addVar_def setParam_TimeLimit_def Model_def)
  define m6 where "m6 = m2\<lparr>vars := replicate (2 + 4 * n) CONTINUOUS\<rparr>"
  have w: "addVars n CONTINUOUS m2 = ([2..<2 + n], m2\<lparr>vars := vars m2 @ replicate n CONTINUOUS\<rparr>)"
    unfolding addVars_eq by (simp add: m2_def numeral_eq_Suc add.assoc del: upt_Suc)
  have h: "addVars n CONTINUOUS (m2\<lparr>vars := vars m2 @ replicate n CONTINUOUS\<rparr>) =
     ([2 + n..<2 + 2 * n], m2\<lparr>vars := vars m2 @ replicate n CONTINUOUS @ replicate n CONTINUOUS\<rparr>)"
    unfolding addVars_eq by (simp add: m2_def numeral_eq_Suc add.assoc del: upt_Suc)
  have x: "addVars n CONTINUOUS (m2\<lparr>vars := vars m2 @ replicate n CONTINUOUS @ replicate n CONTINUOUS\<rparr>) =
     ([2 + 2 * n..<2 + 3 * n], m2\<lparr>vars := vars m2 @ replicate n CONTINUOUS @ replicate n CONTINUOUS @ replicate n CONTINUOUS\<rparr>)"
    unfolding addVars_eq by (simp add: m2_def numeral_eq_Suc add.assoc del: upt_Suc)
  have y: "addVars n CONTINUOUS (m2\<lparr>vars := vars m2 @ replicate n CONTINUOUS @ replicate n CONTINUOUS @ replicate n CONTINUOUS\<rparr>) =
     ([2 + 3 * n..<2 + 4 * n], m6)"
    unfolding addVars_eq m6_def using rep[of n]
    by (simp add: m2_def numeral_eq_Suc add.assoc del: upt_Suc)
  have len6: "length (vars m6) = 2 + 4 * n"
    by (simp add: m6_def)
  have "build N p timeout =
    (layout_of n,
     fold (\<lambda>(i, j). add_pair p (layout_of n) i j) (pairs n)
       (fold (add_bounding (layout_of n)) [0..<n]
         (setObjective (Mul (C 2) (Add (V 0) (V 1))) MINIMIZE m6)))"
    unfolding build_def Let_def n_def[symmetric] s1 prod.case s2[OF s1] w h x y
      nested_loop_pairs pairs_def[symmetric] layout_of_def[symmetric]
    by (simp add: layout_of_def)
  also have "\<dots> = (layout_of n,
      \<lparr>vars = replicate (2 + 4 * n) CONTINUOUS @ replicate (4 * length (pairs n)) BINARY,
       objective = Mul (C 2) (Add (V 0) (V 1)),
       obj_sense = MINIMIZE,
       constrs = concat (map (bounding_constrs (layout_of n)) [0..<n]) @
                 concat (map (pair_block p (layout_of n) (pairs n) (2 + 4 * n))
                             [0..<length (pairs n)]),
       TimeLimit = timeout\<rparr>)"
    unfolding fold_add_pair fold_add_bounding
    by (simp add: setObjective_def m6_def m2_def)
  finally show ?thesis unfolding n_def .
qed

lemma set_pairs: "set (pairs n) = {(i, j). i < j \<and> j < n}"
  by (force simp: pairs_def)

lemma distinct_pairs: "distinct (pairs n)"
proof -
  have inj: "x = y" if "x < n" "y < n" "map (Pair x) [Suc x..<n] = map (Pair y) [Suc y..<n]" for x y
  proof -
    from that(3) have "length (map (Pair x) [Suc x..<n]) = length (map (Pair y) [Suc y..<n])"
      by (rule arg_cong)
    with that(1,2) show ?thesis by simp
  qed
  show ?thesis
    unfolding pairs_def
    by (rule distinct_concat) (auto simp: distinct_map inj_on_def inj)
qed

section \<open>The compiler only appends constraints\<close>

lemma and_then_Inr_iff: "and_then r f = Inr y \<longleftrightarrow> (\<exists>v. r = Inr v \<and> f v = Inr y)"
  by (cases r) (simp_all add: and_then_def)

lemma extends_refl: "extends m m"
  by (auto simp: extends_def intro: exI[of _ "[]"])

lemma extends_addConstr: "extends m m' \<Longrightarrow> extends m (addConstr c m')"
  by (auto simp: extends_def addConstr_def)

lemma extends_trans: "extends m m' \<Longrightarrow> extends m' m'' \<Longrightarrow> extends m m''"
  by (auto simp: extends_def)

lemmas ext = extends_refl extends_addConstr

lemma add_width_extends: "add_width lay parsed m = Inr m' \<Longrightarrow> extends m m'"
  unfolding add_width_def
  by (auto simp: and_then_Inr_iff ext split: list.splits pyval.splits)

lemma add_height_extends: "add_height lay parsed m = Inr m' \<Longrightarrow> extends m m'"
  unfolding add_height_def
  by (auto simp: and_then_Inr_iff ext split: list.splits pyval.splits)

lemma add_position_extends: "add_position lay p parsed m = Inr m' \<Longrightarrow> extends m m'"
  unfolding add_position_def
  by (auto simp: and_then_Inr_iff ext split: list.splits pyval.splits if_splits)

lemma add_area_extends: "add_area lay parsed m = Inr m' \<Longrightarrow> extends m m'"
  unfolding add_area_def
  by (auto simp: and_then_Inr_iff ext split: list.splits pyval.splits)

lemma add_ratio_extends: "add_ratio lay parsed m = Inr m' \<Longrightarrow> extends m m'"
  unfolding add_ratio_def
  by (auto simp: and_then_Inr_iff ext split: list.splits pyval.splits if_splits)

lemma add_horizontal_align_extends: "add_horizontal_align lay parsed m = Inr m' \<Longrightarrow> extends m m'"
  unfolding add_horizontal_align_def
  by (auto simp: and_then_Inr_iff ext split: list.splits pyval.splits)

lemma add_vertical_align_extends: "add_vertical_align lay parsed m = Inr m' \<Longrightarrow> extends m m'"
  unfolding add_vertical_align_def
  by (auto simp: and_then_Inr_iff ext split: list.splits pyval.splits)

lemma add_symmetry_extends: "add_symmetry lay parsed m = Inr m' \<Longrightarrow> extends m m'"
  unfolding add_symmetry_def
  by (auto simp: and_then_Inr_iff ext split: list.splits pyval.splits if_splits)

lemma add_similarity_extends: "add_similarity lay parsed m = Inr m' \<Longrightarrow> extends m m'"
  unfolding add_similarity_def
  by (auto simp: and_then_Inr_iff ext split: list.splits pyval.splits)

lemma add_containment_extends: "add_containment lay parsed m = Inr m' \<Longrightarrow> extends m m'"
  unfolding add_containment_def
  by (auto simp: and_then_Inr_iff ext split: list.splits pyval.splits)

lemma and_then_Inl: "and_then (Inl e) f = Inl e"
  by (simp add: and_then_def)

lemma and_then_Inr: "and_then (Inr v) f = f v"
  by (simp add: and_then_def)

lemma kinds_eq: "kinds = [''width'', ''height'', ''position'', ''area'', ''ratio'',
   ''horizontal_align'', ''vertical_align'', ''symmetry'', ''similarity'', ''containment'']"
  by (simp add: kinds_def pattern_table_def)

lemma parse_constraint_unknown:
  "kind \<notin> set kinds \<Longrightarrow>
   parse_constraint lay p kind text m = Inl (Exception (''Invalid constraint: '' @ text))"
  unfolding kinds_eq parse_constraint_def by simp

lemma pc_width: "parse_constraint lay p ''width'' text m =
   and_then (parse_match ''width'' text) (\<lambda>parsed. add_width lay parsed m)"
  by (simp add: parse_constraint_def)

lemma pc_height: "parse_constraint lay p ''height'' text m =
   and_then (parse_match ''height'' text) (\<lambda>parsed. add_height lay parsed m)"
  by (simp add: parse_constraint_def)

lemma pc_position: "parse_constraint lay p ''position'' text m =
   and_then (parse_match ''position'' text) (\<lambda>parsed. add_position lay p parsed m)"
  by (simp add: parse_constraint_def)

lemma pc_area: "parse_constraint lay p ''area'' text m =
   and_then (parse_match ''area'' text) (\<lambda>parsed. add_area lay parsed m)"
  by (simp add: parse_constraint_def)

lemma pc_ratio: "parse_constraint lay p ''ratio'' text m =
   and_then (parse_match ''ratio'' text) (\<lambda>parsed. add_ratio lay parsed m)"
  by (simp add: parse_constraint_def)

lemma pc_horizontal_align: "parse_constraint lay p ''horizontal_align'' text m =
   and_then (parse_match ''horizontal_align'' text) (\<lambda>parsed. add_horizontal_align lay parsed m)"
  by (simp add: parse_constraint_def)

lemma pc_vertical_align: "parse_constraint lay p ''vertical_align'' text m =
   and_then (parse_match ''vertical_align'' text) (\<lambda>parsed. add_vertical_align lay parsed m)"
  by (simp add: parse_constraint_def)

lemma pc_symmetry: "parse_constraint lay p ''symmetry'' text m =
   and_then (parse_match ''symmetry'' text) (\<lambda>parsed. add_symmetry lay parsed m)"
  by (simp add: parse_constraint_def)

lemma pc_similarity: "parse_constraint lay p ''similarity'' text m =
   and_then (parse_match ''similarity'' text) (\<lambda>parsed. add_similarity lay parsed m)"
  by (simp add: parse_constraint_def)

lemma pc_containment: "parse_constraint lay p ''containment'' text m =
   and_then (parse_match ''containment'' text) (\<lambda>parsed. add_containment lay parsed m)"
  by (simp add: parse_constraint_def)

lemmas pc_known = pc_width pc_height pc_position pc_area pc_ratio pc_horizontal_align
  pc_vertical_align pc_symmetry pc_similarity pc_containment

lemmas add_extends = add_width_extends add_height_extends add_position_extends
  add_area_extends add_ratio_extends add_horizontal_align_extends add_vertical_align_extends
  add_symmetry_extends add_similarity_extends add_containment_extends

lemma kinds_cases:
  "kind \<in> set kinds \<Longrightarrow> kind = ''width'' \<or> kind = ''height'' \<or> kind = ''position''
    \<or> kind = ''area'' \<or> kind = ''ratio'' \<or> kind = ''horizontal_align''
    \<or> kind = ''vertical_align'' \<or> kind = ''symmetry'' \<or> kind = ''similarity''
    \<or> kind = ''containment''"
  by (simp add: kinds_eq)

lemma parse_constraint_extends:
  assumes "parse_constraint lay p kind text m = Inr m'"
  shows "extends m m'"
proof (cases "kind \<in> set kinds")
  case False
  with assms show ?thesis by (simp add: parse_constraint_unknown)
next
  case True
  from kinds_cases[OF True] assms show ?thesis
    by (elim disjE) (auto simp only: pc_known and_then_Inr_iff dest: add_extends)
qed

lemma compile_extends: "compile lay p cs m = Inr m' \<Longrightarrow> extends m m'"
proof (induction cs arbitrary: m)
  case Nil
  then show ?case by (simp add: extends_refl)
next
  case (Cons c cs)
  obtain k t where c: "c = (k, t)" by (cases c)
  from Cons.prems obtain m1 where 1: "parse_constraint lay p k t m = Inr m1"
    and 2: "compile lay p cs m1 = Inr m'"
    by (auto simp: c and_then_Inr_iff)
  from parse_constraint_extends[OF 1] Cons.IH[OF 2] show ?case
    by (rule extends_trans)
qed

lemma feasible_extends: "extends m m' \<Longrightarrow> feasible m' a \<Longrightarrow> feasible m a"
  by (auto simp: extends_def feasible_def)

lemma feasible_sat: "feasible m a \<Longrightarrow> c \<in> set (constrs m) \<Longrightarrow> sat a c"
  by (simp add: feasible_def list_all_iff)

lemma feasible_domain: "feasible m a \<Longrightarrow> v < length (vars m) \<Longrightarrow> in_domain (vars m ! v) (a v)"
  by (simp add: feasible_def list_all_iff)

lemma pair_separates:
  assumes "0 \<le> p" and "list_all (sat a) (pair_constrs p lay i j l r b t)"
    and "a l = 0 \<or> a l = 1" "a r = 0 \<or> a r = 1" "a b = 0 \<or> a b = 1" "a t = 0 \<or> a t = 1"
  shows "interior lay a i \<inter> interior lay a j = {}"
proof -
  from assms(2) have
    L: "a l = 1 \<Longrightarrow> a (var_x lay ! i) + a (var_w lay ! i) + p \<le> a (var_x lay ! j)" and
    R: "a r = 1 \<Longrightarrow> a (var_x lay ! j) + a (var_w lay ! j) + p \<le> a (var_x lay ! i)" and
    B: "a b = 1 \<Longrightarrow> a (var_y lay ! i) + a (var_h lay ! i) + p \<le> a (var_y lay ! j)" and
    T: "a t = 1 \<Longrightarrow> a (var_y lay ! j) + a (var_h lay ! j) + p \<le> a (var_y lay ! i)" and
    some: "1 \<le> a l + a r + a b + a t"
    by (simp_all add: pair_constrs_def)
  from some assms(3-6) consider "a l = 1" | "a r = 1" | "a b = 1" | "a t = 1"
    by fastforce
  then show ?thesis
  proof cases
    case 1
    from L[OF 1] assms(1) show ?thesis by (auto simp: interior_def)
  next
    case 2
    from R[OF 2] assms(1) show ?thesis by (auto simp: interior_def)
  next
    case 3
    from B[OF 3] assms(1) show ?thesis by (auto simp: interior_def)
  next
    case 4
    from T[OF 4] assms(1) show ?thesis by (auto simp: interior_def)
  qed
qed

lemma build_pair:
  assumes "build N p timeout = (lay, m)" "i < j" "j < nat N"
  shows "\<exists>l. l + 3 < length (vars m) \<and>
     vars m ! l = BINARY \<and> vars m ! (l + 1) = BINARY \<and> vars m ! (l + 2) = BINARY \<and>
     vars m ! (l + 3) = BINARY \<and>
     set (pair_constrs p lay i j l (l + 1) (l + 2) (l + 3)) \<subseteq> set (constrs m)"
proof -
  let ?n = "nat N"
  from assms(2,3) have "(i, j) \<in> set (pairs ?n)" by (simp add: set_pairs)
  then obtain k where k: "k < length (pairs ?n)" "pairs ?n ! k = (i, j)"
    by (auto simp: in_set_conv_nth)
  let ?l = "2 + 4 * ?n + 4 * k"
  have fs: "lay = fst (build N p timeout)" "m = snd (build N p timeout)"
    using assms(1) by simp_all
  have lay: "lay = layout_of ?n"
    by (simp only: fs build_eq fst_conv)
  have vars: "vars m = replicate (2 + 4 * ?n) CONTINUOUS @ replicate (4 * length (pairs ?n)) BINARY"
    by (simp only: fs build_eq snd_conv model.select_convs)
  have cs: "constrs m = concat (map (bounding_constrs lay) [0..<?n]) @
        concat (map (pair_block p lay (pairs ?n) (2 + 4 * ?n)) [0..<length (pairs ?n)])"
    unfolding lay by (simp only: fs build_eq snd_conv model.select_convs)
  have blk: "pair_block p lay (pairs ?n) (2 + 4 * ?n) k = pair_constrs p lay i j ?l (?l + 1) (?l + 2) (?l + 3)"
    by (simp add: pair_block_def k)
  have len: "?l + 3 < length (vars m)"
    using k(1) by (simp add: vars)
  have bin: "vars m ! (?l + d) = BINARY" if "d \<le> 3" for d
    using k(1) that by (simp add: vars nth_append)
  have sub: "set (pair_constrs p lay i j ?l (?l + 1) (?l + 2) (?l + 3)) \<subseteq> set (constrs m)"
    using k(1) unfolding cs blk[symmetric] by auto
  from len bin[of 0] bin[of 1] bin[of 2] bin[of 3] sub show ?thesis
    by (intro exI[of _ ?l]) simp
qed

lemma build_2:
  "build 2 0 60 =
    (\<lparr>var_W = 0, var_H = 1, var_w = [2, 3], var_h = [4, 5], var_x = [6, 7], var_y = [8, 9]\<rparr>,
     \<lparr>vars = [CONTINUOUS, CONTINUOUS, CONTINUOUS, CONTINUOUS, CONTINUOUS, CONTINUOUS,
              CONTINUOUS, CONTINUOUS, CONTINUOUS, CONTINUOUS, BINARY, BINARY, BINARY, BINARY],
      objective = Mul (C 2) (Add (V 0) (V 1)), obj_sense = MINIMIZE,
      constrs =
        [Le (Add (V 6) (V 2)) (V 0), Le (Add (V 8) (V 4)) (V 1),
         Le (Add (V 7) (V 3)) (V 0), Le (Add (V 9) (V 5)) (V 1),
         Ind 10 (Le (Add (Add (V 6) (V 2)) (C 0)) (V 7)),
         Ind 11 (Le (Add (Add (V 7) (V 3)) (C 0)) (V 6)),
         Ind 12 (Le (Add (Add (V 8) (V 4)) (C 0)) (V 9)),
         Ind 13 (Le (Add (Add (V 9) (V 5)) (C 0)) (V 8)),
         Le (Add (V 10) (V 11)) (C 1), Le (Add (V 12) (V 13)) (C 1),
         Ge (Add (Add (Add (V 10) (V 11)) (V 12)) (V 13)) (C 1)],
      TimeLimit = 60\<rparr>)"
  by (simp add: build_def Let_def addVar_def setParam_TimeLimit_def Model_def numeral_eq_Suc
      setObjective_def add_bounding_def bounding_constrs_def add_pair_def pair_constrs_def
      addConstr_def)

section \<open>Pairwise separation\<close>

text \<open>
  C1.  Let the padding \<open>p\<close> be non-negative, as the interface of \<open>solve\<close> requires.
  Take the model \<open>solve\<close> has assembled for \<open>N\<close> boxes after compiling any list of
  constraints, and any assignment of its variables that is feasible: every variable in
  its domain and every constraint satisfied, among them the seven constraints of every
  pair over that pair's four binary indicators.  Then for any two distinct boxes the
  interiors of their rectangles do not intersect.
\<close>

theorem pairwise_nonoverlap:
  assumes "0 \<le> p"
    and "build N p timeout = (lay, m)"
    and "compile lay p cs m = Inr m'"
    and "feasible m' a"
    and "i < nat N" and "j < nat N" and "i \<noteq> j"
  shows "interior lay a i \<inter> interior lay a j = {}"
proof -
  have ext: "extends m m'"
    using assms(3) by (rule compile_extends)
  then have vars: "vars m' = vars m"
    by (auto simp: extends_def)
  have feas: "feasible m a"
    using ext assms(4) by (rule feasible_extends)
  have sep: "interior lay a i' \<inter> interior lay a j' = {}" if "i' < j'" "j' < nat N" for i' j'
  proof -
    from build_pair[OF assms(2) that] obtain l where
      len: "l + 3 < length (vars m)" and
      bin: "vars m ! l = BINARY" "vars m ! (l + 1) = BINARY" "vars m ! (l + 2) = BINARY"
        "vars m ! (l + 3) = BINARY" and
      sub: "set (pair_constrs p lay i' j' l (l + 1) (l + 2) (l + 3)) \<subseteq> set (constrs m)"
      by blast
    have dom: "a (l + d) = 0 \<or> a (l + d) = 1" if "d \<le> 3" "vars m ! (l + d) = BINARY" for d
      using feasible_domain[OF feas, of "l + d"] that len by simp
    have sat: "list_all (sat a) (pair_constrs p lay i' j' l (l + 1) (l + 2) (l + 3))"
      using sub feasible_sat[OF feas] by (auto simp: list_all_iff)
    from pair_separates[OF assms(1) sat] dom[of 0] dom[of 1] dom[of 2] dom[of 3] bin
    show ?thesis by simp
  qed
  from assms(5-7) consider "i < j" | "j < i" by linarith
  then show ?thesis
  proof cases
    case 1
    from sep[OF 1 assms(6)] show ?thesis .
  next
    case 2
    from sep[OF 2 assms(5)] show ?thesis by (simp add: Int_commute)
  qed
qed

theorem pairwise_nonoverlap_witness:
  "feasible (snd (build 2 0 60))
     (\<lambda>v. if v = 0 then 2 else if v \<in> {1, 2, 3, 4, 5, 7, 10} then 1 else 0) \<and>
   interior (fst (build 2 0 60))
     (\<lambda>v. if v = 0 then 2 else if v \<in> {1, 2, 3, 4, 5, 7, 10} then 1 else 0) 0 \<inter>
   interior (fst (build 2 0 60))
     (\<lambda>v. if v = 0 then 2 else if v \<in> {1, 2, 3, 4, 5, 7, 10} then 1 else 0) 1 = {}"
proof -
  let ?a = "\<lambda>v::nat. if v = 0 then 2 else if v \<in> {1, 2, 3, 4, 5, 7, 10} then 1 else (0::real)"
  have f: "feasible (snd (build 2 0 60)) ?a"
    unfolding build_2 snd_conv by (simp add: feasible_def)
  have b: "build 2 0 60 = (fst (build 2 0 60), snd (build 2 0 60))"
    by simp
  have c: "compile (fst (build 2 0 60)) 0 [] (snd (build 2 0 60)) = Inr (snd (build 2 0 60))"
    by simp
  have "interior (fst (build 2 0 60)) ?a 0 \<inter> interior (fst (build 2 0 60)) ?a 1 = {}"
    by (rule pairwise_nonoverlap[OF _ b c f]) simp_all
  with f show ?thesis by blast
qed

text \<open>
  C2.  For \<open>N \<ge> 0\<close> the model built by \<open>solve\<close> before any user constraint has the
  objective \<open>2 * (W + H)\<close>, to be minimised.  Its constraints are, in order and with
  nothing else: for every box \<open>i < N\<close> the two bounding constraints \<open>x_i + w_i \<le> W\<close> and
  \<open>y_i + h_i \<le> H\<close>; then for every pair \<open>i < j < N\<close>, each pair once, the four indicator
  implications \<open>l = 1 \<Longrightarrow> x_i + w_i + p \<le> x_j\<close>, \<open>r = 1 \<Longrightarrow> x_j + w_j + p \<le> x_i\<close>,
  \<open>b = 1 \<Longrightarrow> y_i + h_i + p \<le> y_j\<close>, \<open>t = 1 \<Longrightarrow> y_j + h_j + p \<le> y_i\<close> and the three sums
  \<open>l + r \<le> 1\<close>, \<open>b + t \<le> 1\<close>, \<open>l + r + b + t \<ge> 1\<close>.  The indicators \<open>l, r, b, t\<close> of the
  \<open>k\<close>-th pair are the variables \<open>2 + 4 * N + 4 * k\<close> to \<open>2 + 4 * N + 4 * k + 3\<close>: they are
  binary, no two pairs share one, and none is one of the \<open>2 + 4 * N\<close> continuous
  variables \<open>W, H, w, h, x, y\<close> before them.
\<close>

theorem build_model:
  assumes "0 \<le> N" and "build N p timeout = (lay, m)"
  shows "lay = layout_of (nat N) \<and>
     objective m = Mul (C 2) (Add (V (var_W lay)) (V (var_H lay))) \<and>
     obj_sense m = MINIMIZE \<and>
     (\<exists>ps. distinct ps \<and> set ps = {(i, j). i < j \<and> j < nat N} \<and>
        vars m = replicate (2 + 4 * nat N) CONTINUOUS @ replicate (4 * length ps) BINARY \<and>
        constrs m =
          concat (map (\<lambda>i.
             [Le (Add (V (var_x lay ! i)) (V (var_w lay ! i))) (V (var_W lay)),
              Le (Add (V (var_y lay ! i)) (V (var_h lay ! i))) (V (var_H lay))])
            [0..<nat N]) @
          concat (map (\<lambda>k.
             let i = fst (ps ! k); j = snd (ps ! k);
                 l = 2 + 4 * nat N + 4 * k; r = l + 1; b = l + 2; t = l + 3
             in [Ind l (Le (Add (Add (V (var_x lay ! i)) (V (var_w lay ! i))) (C p))
                           (V (var_x lay ! j))),
                 Ind r (Le (Add (Add (V (var_x lay ! j)) (V (var_w lay ! j))) (C p))
                           (V (var_x lay ! i))),
                 Ind b (Le (Add (Add (V (var_y lay ! i)) (V (var_h lay ! i))) (C p))
                           (V (var_y lay ! j))),
                 Ind t (Le (Add (Add (V (var_y lay ! j)) (V (var_h lay ! j))) (C p))
                           (V (var_y lay ! i))),
                 Le (Add (V l) (V r)) (C 1),
                 Le (Add (V b) (V t)) (C 1),
                 Ge (Add (Add (Add (V l) (V r)) (V b)) (V t)) (C 1)])
            [0..<length ps]))"
proof -
  let ?n = "nat N"
  let ?B = "\<lambda>i. [Le (Add (V (var_x lay ! i)) (V (var_w lay ! i))) (V (var_W lay)),
              Le (Add (V (var_y lay ! i)) (V (var_h lay ! i))) (V (var_H lay))]"
  let ?P = "\<lambda>ps k.
             let i = fst (ps ! k); j = snd (ps ! k);
                 l = 2 + 4 * nat N + 4 * k; r = l + 1; b = l + 2; t = l + 3
             in [Ind l (Le (Add (Add (V (var_x lay ! i)) (V (var_w lay ! i))) (C p))
                           (V (var_x lay ! j))),
                 Ind r (Le (Add (Add (V (var_x lay ! j)) (V (var_w lay ! j))) (C p))
                           (V (var_x lay ! i))),
                 Ind b (Le (Add (Add (V (var_y lay ! i)) (V (var_h lay ! i))) (C p))
                           (V (var_y lay ! j))),
                 Ind t (Le (Add (Add (V (var_y lay ! j)) (V (var_h lay ! j))) (C p))
                           (V (var_y lay ! i))),
                 Le (Add (V l) (V r)) (C 1),
                 Le (Add (V b) (V t)) (C 1),
                 Ge (Add (Add (Add (V l) (V r)) (V b)) (V t)) (C 1)]"
  have fs: "lay = fst (build N p timeout)" "m = snd (build N p timeout)"
    using assms(2) by simp_all
  have lay: "lay = layout_of ?n"
    by (simp only: fs build_eq fst_conv)
  have obj: "objective m = Mul (C 2) (Add (V (var_W lay)) (V (var_H lay)))"
    unfolding lay by (simp add: fs build_eq layout_of_def)
  have sense: "obj_sense m = MINIMIZE"
    by (simp only: fs build_eq snd_conv model.select_convs)
  have vars: "vars m = replicate (2 + 4 * ?n) CONTINUOUS @ replicate (4 * length (pairs ?n)) BINARY"
    by (simp only: fs build_eq snd_conv model.select_convs)
  have cs: "constrs m = concat (map (bounding_constrs lay) [0..<?n]) @
        concat (map (pair_block p lay (pairs ?n) (2 + 4 * ?n)) [0..<length (pairs ?n)])"
    unfolding lay by (simp only: fs build_eq snd_conv model.select_convs)
  have B: "bounding_constrs lay = ?B"
    by (rule HOL.ext) (simp only: bounding_constrs_def)
  have P: "pair_block p lay ps (2 + 4 * ?n) = ?P ps" for ps
    by (rule HOL.ext) (simp only: pair_block_def pair_constrs_def Let_def)
  have cs': "constrs m = concat (map ?B [0..<?n]) @ concat (map (?P (pairs ?n)) [0..<length (pairs ?n)])"
    using cs unfolding B P .
  from distinct_pairs[of ?n] set_pairs[of ?n] vars cs'
  have "\<exists>ps. distinct ps \<and> set ps = {(i, j). i < j \<and> j < ?n} \<and>
        vars m = replicate (2 + 4 * ?n) CONTINUOUS @ replicate (4 * length ps) BINARY \<and>
        constrs m = concat (map ?B [0..<?n]) @ concat (map (?P ps) [0..<length ps])"
    by blast
  with lay obj sense show ?thesis by blast
qed

theorem build_model_witness:
  "(0::int) \<le> 2 \<and>
   fst (build 2 0 60) = layout_of (nat 2) \<and>
   objective (snd (build 2 0 60)) =
     Mul (C 2) (Add (V (var_W (fst (build 2 0 60)))) (V (var_H (fst (build 2 0 60))))) \<and>
   obj_sense (snd (build 2 0 60)) = MINIMIZE \<and>
   (\<exists>ps. distinct ps \<and> set ps = {(i, j). i < j \<and> j < nat 2} \<and>
      vars (snd (build 2 0 60)) =
        replicate (2 + 4 * nat 2) CONTINUOUS @ replicate (4 * length ps) BINARY \<and>
      constrs (snd (build 2 0 60)) =
        concat (map (\<lambda>i.
           [Le (Add (V (var_x (fst (build 2 0 60)) ! i)) (V (var_w (fst (build 2 0 60)) ! i)))
               (V (var_W (fst (build 2 0 60)))),
            Le (Add (V (var_y (fst (build 2 0 60)) ! i)) (V (var_h (fst (build 2 0 60)) ! i)))
               (V (var_H (fst (build 2 0 60))))])
          [0..<nat 2]) @
        concat (map (\<lambda>k.
           let i = fst (ps ! k); j = snd (ps ! k);
               l = 2 + 4 * nat 2 + 4 * k; r = l + 1; b = l + 2; t = l + 3
           in [Ind l (Le (Add (Add (V (var_x (fst (build 2 0 60)) ! i))
                                   (V (var_w (fst (build 2 0 60)) ! i))) (C 0))
                         (V (var_x (fst (build 2 0 60)) ! j))),
               Ind r (Le (Add (Add (V (var_x (fst (build 2 0 60)) ! j))
                                   (V (var_w (fst (build 2 0 60)) ! j))) (C 0))
                         (V (var_x (fst (build 2 0 60)) ! i))),
               Ind b (Le (Add (Add (V (var_y (fst (build 2 0 60)) ! i))
                                   (V (var_h (fst (build 2 0 60)) ! i))) (C 0))
                         (V (var_y (fst (build 2 0 60)) ! j))),
               Ind t (Le (Add (Add (V (var_y (fst (build 2 0 60)) ! j))
                                   (V (var_h (fst (build 2 0 60)) ! j))) (C 0))
                         (V (var_y (fst (build 2 0 60)) ! i))),
               Le (Add (V l) (V r)) (C 1),
               Le (Add (V b) (V t)) (C 1),
               Ge (Add (Add (Add (V l) (V r)) (V b)) (V t)) (C 1)])
          [0..<length ps]))"
proof -
  have b: "build 2 0 60 = (fst (build 2 0 60), snd (build 2 0 60))"
    by simp
  have n: "(0::int) \<le> 2"
    by simp
  from build_model[OF n b] n show ?thesis
    by blast
qed

section \<open>Errors and the result of \<open>solve\<close>\<close>

lemma patterns_None: "k \<notin> set kinds \<Longrightarrow> patterns k = None"
  by (simp add: patterns_def kinds_def map_of_eq_None_iff)

lemma parse_match_unknown:
  "lower kind \<notin> set kinds \<Longrightarrow> parse_match kind text = Inl (KeyError (lower kind))"
  by (simp add: parse_match_def patterns_None Let_def)

lemma kinds_lower: "list_all (\<lambda>k. lower k = k) kinds"
  by code_simp

lemma not_kind_if_lower: "lower kind \<notin> set kinds \<Longrightarrow> kind \<notin> set kinds"
proof
  assume n: "lower kind \<notin> set kinds" and k: "kind \<in> set kinds"
  from kinds_lower k have "lower kind = kind"
    by (simp add: list_all_iff)
  with n k show False
    by simp
qed


lemma compile_fails_if:
  assumes "(kind, text) \<in> set cs" and "\<And>m. \<exists>e. parse_constraint lay p kind text m = Inl e"
  shows "\<exists>e. compile lay p cs m = Inl e"
  using assms(1)
proof (induction cs arbitrary: m)
  case Nil
  then show ?case by simp
next
  case (Cons c cs)
  obtain k t where c: "c = (k, t)" by (cases c)
  show ?case
  proof (cases "parse_constraint lay p k t m")
    case (Inl e)
    then show ?thesis by (simp add: c and_then_Inl)
  next
    case (Inr m1)
    have "(kind, text) \<noteq> (k, t)"
      using assms(2)[of m] Inr by auto
    with Cons.prems c have "(kind, text) \<in> set cs" by auto
    from Cons.IH[OF this, of m1] show ?thesis by (simp add: c Inr and_then_Inr)
  qed
qed

lemma solve_compile_error:
  assumes "compile (fst (build N p timeout)) p (constraints wd) (snd (build N p timeout)) = Inl e"
  shows "solve optimize N p timeout wd = (Inl e, wd)"
proof -
  obtain lay m where b: "build N p timeout = (lay, m)"
    by (cases "build N p timeout")
  with assms show ?thesis
    by (simp add: solve_def)
qed

lemma solve_after_compile:
  assumes "build N p timeout = (lay, m)" "compile lay p (constraints wd) m = Inr m'"
    "optimize m' = (st, sol)"
  shows "solve optimize N p timeout wd =
    (if st = INFEASIBLE
     then (Inl (Exception ''Infeasible model''), wd\<lparr>trace := trace wd @ [Optimize]\<rparr>)
     else (extract_result lay m' st sol,
           if st \<noteq> OPTIMAL
           then wd\<lparr>trace := trace wd @ [Optimize, Print ''Model is not optimal'']\<rparr>
           else wd\<lparr>trace := trace wd @ [Optimize]\<rparr>))"
  using assms by (simp add: solve_def Let_def)

lemma build_1:
  "build 1 0 60 =
    (\<lparr>var_W = 0, var_H = 1, var_w = [2], var_h = [3], var_x = [4], var_y = [5]\<rparr>,
     \<lparr>vars = [CONTINUOUS, CONTINUOUS, CONTINUOUS, CONTINUOUS, CONTINUOUS, CONTINUOUS],
      objective = Mul (C 2) (Add (V 0) (V 1)), obj_sense = MINIMIZE,
      constrs = [Le (Add (V 4) (V 2)) (V 0), Le (Add (V 5) (V 3)) (V 1)],
      TimeLimit = 60\<rparr>)"
  by (simp add: build_def Let_def addVar_def setParam_TimeLimit_def Model_def numeral_eq_Suc
      setObjective_def add_bounding_def bounding_constrs_def addConstr_def)

lemma solve_Inr:
  assumes "solve optimize N p timeout wd = (Inr res, wd')"
  shows "\<exists>lay m m' st X.
     build N p timeout = (lay, m) \<and> compile lay p (constraints wd) m = Inr m' \<and>
     optimize m' = (st, Some X) \<and>
     res = (eval X (objective m'), X (var_W lay), X (var_H lay),
            map X (var_x lay), map X (var_y lay), map X (var_w lay), map X (var_h lay), st) \<and>
     constraints wd' = constraints wd"
proof -
  obtain lay m where b: "build N p timeout = (lay, m)"
    by (cases "build N p timeout")
  show ?thesis
  proof (cases "compile lay p (constraints wd) m")
    case (Inl e)
    with assms b show ?thesis by (simp add: solve_def)
  next
    case (Inr m')
    obtain st sol where o: "optimize m' = (st, sol)"
      by (cases "optimize m'")
    note eq = solve_after_compile[where optimize = optimize, OF b Inr o]
    from assms obtain X where "sol = Some X"
      unfolding eq by (cases sol) (auto simp: extract_result_def split: if_splits)
    with assms b Inr o show ?thesis
      unfolding eq by (auto simp: extract_result_def split: if_splits)
  qed
qed

lemma build_0:
  "build 0 p timeout =
    (\<lparr>var_W = 0, var_H = 1, var_w = [], var_h = [], var_x = [], var_y = []\<rparr>,
     \<lparr>vars = [CONTINUOUS, CONTINUOUS],
      objective = Mul (C 2) (Add (V 0) (V 1)), obj_sense = MINIMIZE,
      constrs = [], TimeLimit = timeout\<rparr>)"
  by (simp add: build_def Let_def addVar_def setParam_TimeLimit_def Model_def setObjective_def)

lemma feasible_0: "feasible (snd (build 0 p timeout)) a \<longleftrightarrow> 0 \<le> a 0 \<and> 0 \<le> a 1"
  by (simp add: build_0 feasible_def numeral_2_eq_2)

lemma optimal_0: "optimal (snd (build 0 p timeout)) a \<longleftrightarrow> a 0 = 0 \<and> a 1 = 0"
proof
  assume o: "optimal (snd (build 0 p timeout)) a"
  then have f: "0 \<le> a 0" "0 \<le> a 1"
    by (simp_all add: optimal_def feasible_0)
  have "feasible (snd (build 0 p timeout)) (\<lambda>v. 0)"
    by (simp add: feasible_0)
  with o have "2 * (a 0 + a 1) \<le> (0::real)"
    unfolding optimal_def by (auto simp: build_0 dest!: spec[of _ "\<lambda>v. 0"])
  then have le: "a 0 + a 1 \<le> 0"
    by simp
  from f le have "a 0 = 0"
    by linarith
  moreover from f le have "a 1 = 0"
    by linarith
  ultimately show "a 0 = 0 \<and> a 1 = 0"
    by simp
next
  assume "a 0 = 0 \<and> a 1 = 0"
  then show "optimal (snd (build 0 p timeout)) a"
    unfolding optimal_def feasible_0 by (simp add: build_0)
qed

text \<open>
  C6.  The kinds are read without regard to case (\<open>parse_match\<close> lowers the kind, line
  38): a kind is one of the ten recognized kinds when its lower-case form is a key of
  \<open>patterns\<close>.  For every kind that is not, and every text, \<open>parse_match\<close> raises
  \<open>KeyError\<close> on that kind; \<open>parse_constraint\<close> raises \<open>Invalid constraint\<close> and adds
  nothing to the model; and \<open>solve\<close> called with such a constraint in its list raises
  with the solver never called and nothing printed.
\<close>

theorem unknown_kind_rejected:
  assumes "lower kind \<notin> set kinds"
  shows "parse_match kind text = Inl (KeyError (lower kind)) \<and>
     parse_constraint lay p kind text m = Inl (Exception (''Invalid constraint: '' @ text)) \<and>
     ((kind, text) \<in> set (constraints wd) \<longrightarrow>
        (\<exists>e. solve optimize N p timeout wd = (Inl e, wd)))"
proof (intro conjI impI)
  show "parse_match kind text = Inl (KeyError (lower kind))"
    using assms by (rule parse_match_unknown)
next
  have k: "kind \<notin> set kinds"
    using assms by (rule not_kind_if_lower)
  then show "parse_constraint lay p kind text m = Inl (Exception (''Invalid constraint: '' @ text))"
    by (rule parse_constraint_unknown)
  assume mem: "(kind, text) \<in> set (constraints wd)"
  have "\<exists>e. compile (fst (build N p timeout)) p (constraints wd) (snd (build N p timeout)) = Inl e"
    using mem by (rule compile_fails_if) (simp add: parse_constraint_unknown[OF k])
  then show "\<exists>e. solve optimize N p timeout wd = (Inl e, wd)"
    by (auto simp: solve_compile_error)
qed

theorem unknown_kind_rejected_witness:
  "lower ''Colour'' \<notin> set kinds \<and>
   (''Colour'', ''box 0 is red'') \<in>
     set (constraints \<lparr>constraints = [(''Colour'', ''box 0 is red'')], trace = []\<rparr>) \<and>
   parse_match ''Colour'' ''box 0 is red'' = Inl (KeyError (lower ''Colour'')) \<and>
   parse_constraint (layout_of 1) 0 ''Colour'' ''box 0 is red'' Model =
     Inl (Exception (''Invalid constraint: '' @ ''box 0 is red'')) \<and>
   (\<exists>e. solve (\<lambda>m. (OPTIMAL, Some (\<lambda>v. 0))) 1 0 60
          \<lparr>constraints = [(''Colour'', ''box 0 is red'')], trace = []\<rparr> =
        (Inl e, \<lparr>constraints = [(''Colour'', ''box 0 is red'')], trace = []\<rparr>))"
proof -
  have 1: "lower ''Colour'' \<notin> set kinds"
    by code_simp
  have 3: "(''Colour'', ''box 0 is red'') \<in>
     set (constraints \<lparr>constraints = [(''Colour'', ''box 0 is red'')], trace = []\<rparr>)"
    by simp
  from unknown_kind_rejected[OF 1, of "''box 0 is red''" "layout_of 1" 0 Model
      "\<lparr>constraints = [(''Colour'', ''box 0 is red'')], trace = []\<rparr>"
      "\<lambda>m. (OPTIMAL, Some (\<lambda>v. 0))" 1 60] 1 3
  show ?thesis by blast
qed

text \<open>
  C7.  Once the constraints are compiled and the solver has answered: on \<open>INFEASIBLE\<close>
  \<open>solve\<close> raises \<open>Infeasible model\<close> and returns nothing; on \<open>TIME_LIMIT\<close> with a
  solution it prints \<open>Model is not optimal\<close> and returns the bundle of objective value,
  \<open>W\<close>, \<open>H\<close> and the four arrays with that status; on \<open>OPTIMAL\<close> it returns the bundle
  and prints nothing.
\<close>

theorem status_handling:
  assumes "build N p timeout = (lay, m)"
    and "compile lay p (constraints wd) m = Inr m'"
    and "optimize m' = (st, sol)"
  shows
    "(st = INFEASIBLE \<longrightarrow>
        solve optimize N p timeout wd =
          (Inl (Exception ''Infeasible model''), wd\<lparr>trace := trace wd @ [Optimize]\<rparr>)) \<and>
     (st = TIME_LIMIT \<longrightarrow> sol = Some X \<longrightarrow>
        solve optimize N p timeout wd =
          (Inr (eval X (objective m'), X (var_W lay), X (var_H lay),
                map X (var_x lay), map X (var_y lay), map X (var_w lay), map X (var_h lay),
                TIME_LIMIT),
           wd\<lparr>trace := trace wd @ [Optimize, Print ''Model is not optimal'']\<rparr>)) \<and>
     (st = OPTIMAL \<longrightarrow> sol = Some X \<longrightarrow>
        solve optimize N p timeout wd =
          (Inr (eval X (objective m'), X (var_W lay), X (var_H lay),
                map X (var_x lay), map X (var_y lay), map X (var_w lay), map X (var_h lay),
                OPTIMAL),
           wd\<lparr>trace := trace wd @ [Optimize]\<rparr>))"
proof -
  note eq = solve_after_compile[where optimize = optimize, OF assms]
  show ?thesis
    unfolding eq by (simp add: extract_result_def)
qed

theorem status_handling_witness:
  "build 1 0 60 = (fst (build 1 0 60), snd (build 1 0 60)) \<and>
   compile (fst (build 1 0 60)) 0 (constraints \<lparr>constraints = [], trace = []\<rparr>)
     (snd (build 1 0 60)) = Inr (snd (build 1 0 60)) \<and>
   solve (\<lambda>m. (TIME_LIMIT, Some (\<lambda>v. if v < 4 then 1 else 0))) 1 0 60
       \<lparr>constraints = [], trace = []\<rparr> =
     (Inr (4, 1, 1, [0], [0], [1], [1], TIME_LIMIT),
      \<lparr>constraints = [], trace = [Optimize, Print ''Model is not optimal'']\<rparr>) \<and>
   solve (\<lambda>m. (OPTIMAL, Some (\<lambda>v. if v < 4 then 1 else 0))) 1 0 60
       \<lparr>constraints = [], trace = []\<rparr> =
     (Inr (4, 1, 1, [0], [0], [1], [1], OPTIMAL), \<lparr>constraints = [], trace = [Optimize]\<rparr>) \<and>
   solve (\<lambda>m. (INFEASIBLE, None)) 1 0 60 \<lparr>constraints = [], trace = []\<rparr> =
     (Inl (Exception ''Infeasible model''), \<lparr>constraints = [], trace = [Optimize]\<rparr>)"
proof -
  let ?wd = "\<lparr>constraints = [], trace = []\<rparr>"
  let ?X = "\<lambda>v::nat. if v < 4 then 1 else (0::real)"
  have b: "build 1 0 60 = (fst (build 1 0 60), snd (build 1 0 60))"
    by simp
  have c: "compile (fst (build 1 0 60)) 0 (constraints ?wd) (snd (build 1 0 60)) =
      Inr (snd (build 1 0 60))"
    by simp
  have t: "(\<lambda>m. (TIME_LIMIT, Some ?X)) (snd (build 1 0 60)) = (TIME_LIMIT, Some ?X)"
    and opt: "(\<lambda>m. (OPTIMAL, Some ?X)) (snd (build 1 0 60)) = (OPTIMAL, Some ?X)"
    and i: "(\<lambda>m. (INFEASIBLE, None)) (snd (build 1 0 60)) = (INFEASIBLE, None)"
    by simp_all
  from status_handling[where optimize = "\<lambda>m. (TIME_LIMIT, Some ?X)" and X = ?X, OF b c t]
  have 1: "solve (\<lambda>m. (TIME_LIMIT, Some ?X)) 1 0 60 ?wd =
     (Inr (4, 1, 1, [0], [0], [1], [1], TIME_LIMIT),
      \<lparr>constraints = [], trace = [Optimize, Print ''Model is not optimal'']\<rparr>)"
    by (simp add: build_1)
  from status_handling[where optimize = "\<lambda>m. (OPTIMAL, Some ?X)" and X = ?X, OF b c opt]
  have 2: "solve (\<lambda>m. (OPTIMAL, Some ?X)) 1 0 60 ?wd =
     (Inr (4, 1, 1, [0], [0], [1], [1], OPTIMAL), \<lparr>constraints = [], trace = [Optimize]\<rparr>)"
    by (simp add: build_1)
  from status_handling[where optimize = "\<lambda>m. (INFEASIBLE, None)" and X = ?X, OF b c i]
  have 3: "solve (\<lambda>m. (INFEASIBLE, None)) 1 0 60 ?wd =
     (Inl (Exception ''Infeasible model''), \<lparr>constraints = [], trace = [Optimize]\<rparr>)"
    by simp
  from b c 1 2 3 show ?thesis
    by (intro conjI)
qed



text \<open>
  C9.  With no boxes and no constraints the model has an optimal assignment, and every
  optimal assignment has objective value 0.  When the solver answers \<open>OPTIMAL\<close> with an
  optimal assignment, \<open>solve\<close> returns perimeter 0, \<open>W = 0\<close>, \<open>H = 0\<close> and four empty
  arrays.
\<close>

theorem zero_boxes:
  assumes "constraints wd = []"
    and "optimize (snd (build 0 p timeout)) = (OPTIMAL, Some X)"
    and "optimal (snd (build 0 p timeout)) X"
  shows "optimal (snd (build 0 p timeout)) (\<lambda>v. 0) \<and>
     (\<forall>a. optimal (snd (build 0 p timeout)) a \<longrightarrow>
           eval a (objective (snd (build 0 p timeout))) = 0) \<and>
     fst (solve optimize 0 p timeout wd) = Inr (0, 0, 0, [], [], [], [], OPTIMAL)"
proof -
  have 1: "optimal (snd (build 0 p timeout)) (\<lambda>v. 0)"
    by (simp add: optimal_0)
  have 2: "\<forall>a. optimal (snd (build 0 p timeout)) a \<longrightarrow>
           eval a (objective (snd (build 0 p timeout))) = 0"
  proof (intro allI impI)
    fix a
    assume "optimal (snd (build 0 p timeout)) a"
    then have "a 0 = 0 \<and> a 1 = 0"
      by (simp only: optimal_0)
    then show "eval a (objective (snd (build 0 p timeout))) = 0"
      by (simp add: build_0)
  qed
  from assms(3) have X: "X 0 = 0" "X (Suc 0) = 0"
    by (simp_all add: optimal_0)
  have b: "build 0 p timeout = (fst (build 0 p timeout), snd (build 0 p timeout))"
    by simp
  have c: "compile (fst (build 0 p timeout)) p (constraints wd) (snd (build 0 p timeout)) =
      Inr (snd (build 0 p timeout))"
    by (simp add: assms(1))
  note eq = solve_after_compile[where optimize = optimize, OF b c assms(2)]
  have 3: "fst (solve optimize 0 p timeout wd) = Inr (0, 0, 0, [], [], [], [], OPTIMAL)"
    unfolding eq by (simp add: extract_result_def build_0 X)
  from 1 2 3 show ?thesis
    by (intro conjI)
qed

theorem zero_boxes_witness:
  "constraints \<lparr>constraints = [], trace = []\<rparr> = [] \<and>
   optimal (snd (build 0 0 60)) (\<lambda>v. 0) \<and>
   eval (\<lambda>v. 0) (objective (snd (build 0 0 60))) = 0 \<and>
   fst (solve (\<lambda>m. (OPTIMAL, Some (\<lambda>v. 0))) 0 0 60 \<lparr>constraints = [], trace = []\<rparr>) =
     Inr (0, 0, 0, [], [], [], [], OPTIMAL)"
proof -
  have c: "constraints \<lparr>constraints = [], trace = []\<rparr> = []"
    by simp
  have o: "(\<lambda>m. (OPTIMAL, Some (\<lambda>v. 0))) (snd (build 0 0 60)) = (OPTIMAL, Some (\<lambda>v. 0))"
    by simp
  have opt: "optimal (snd (build 0 0 60)) (\<lambda>v. 0)"
    by (simp add: optimal_0)
  from zero_boxes[where optimize = "\<lambda>m. (OPTIMAL, Some (\<lambda>v. 0))", OF c o opt] c
  show ?thesis
    by blast
qed

text \<open>
  C10.  For \<open>N \<ge> 0\<close>, a call of \<open>solve\<close> that returns has returned the tuple
  \<open>(perimeter, W, H, x, y, w, h, status)\<close> in that order: \<open>status\<close> and the values are
  the solver's answer on the compiled model, \<open>perimeter\<close> is \<open>2 * (W + H)\<close>, each of the
  four arrays has length \<open>N\<close> and its entry \<open>i\<close> is the value of the variable of box
  \<open>i\<close>; the caller's list of constraints is as it was.
\<close>

theorem result_shape:
  assumes "0 \<le> N" and "solve optimize N p timeout wd = (Inr res, wd')"
  shows "\<exists>lay m m' X perimeter W H x y w h status.
     res = (perimeter, W, H, x, y, w, h, status) \<and>
     build N p timeout = (lay, m) \<and> compile lay p (constraints wd) m = Inr m' \<and>
     optimize m' = (status, Some X) \<and>
     perimeter = 2 * (W + H) \<and> W = X (var_W lay) \<and> H = X (var_H lay) \<and>
     int (length x) = N \<and> int (length y) = N \<and> int (length w) = N \<and> int (length h) = N \<and>
     (\<forall>i < length x. x ! i = X (var_x lay ! i) \<and> y ! i = X (var_y lay ! i) \<and>
                      w ! i = X (var_w lay ! i) \<and> h ! i = X (var_h lay ! i)) \<and>
     constraints wd' = constraints wd"
proof -
  from solve_Inr[OF assms(2)] obtain lay m m' st X where
    b: "build N p timeout = (lay, m)" and c: "compile lay p (constraints wd) m = Inr m'" and
    o: "optimize m' = (st, Some X)" and
    r: "res = (eval X (objective m'), X (var_W lay), X (var_H lay),
            map X (var_x lay), map X (var_y lay), map X (var_w lay), map X (var_h lay), st)" and
    k: "constraints wd' = constraints wd"
    by blast
  have fs: "lay = fst (build N p timeout)" "m = snd (build N p timeout)"
    using b by simp_all
  have lay: "lay = layout_of (nat N)"
    by (simp only: fs build_eq fst_conv)
  have len: "int (length (var_x lay)) = N" "int (length (var_y lay)) = N"
    "int (length (var_w lay)) = N" "int (length (var_h lay)) = N"
    using assms(1) unfolding lay layout_of_def
    by (simp_all only: layout.select_convs length_upt)
  have "objective m = Mul (C 2) (Add (V (var_W lay)) (V (var_H lay)))"
    unfolding lay by (simp add: fs build_eq layout_of_def)
  moreover from compile_extends[OF c] have "objective m' = objective m"
    by (auto simp: extends_def)
  ultimately have per: "eval X (objective m') = 2 * (X (var_W lay) + X (var_H lay))"
    by simp
  have same: "length (var_y lay) = length (var_x lay)" "length (var_w lay) = length (var_x lay)"
    "length (var_h lay) = length (var_x lay)"
    using len by linarith+
  show ?thesis
    using r b c o per len k same
    by (intro exI[of _ lay] exI[of _ m] exI[of _ m'] exI[of _ X]) simp
qed

theorem result_shape_witness:
  "(0::int) \<le> 1 \<and>
   solve (\<lambda>m. (OPTIMAL, Some (\<lambda>v. if v < 4 then 1 else (0::real)))) 1 0 60
       \<lparr>constraints = [], trace = []\<rparr> =
     (Inr (4, 1, 1, [0], [0], [1], [1], OPTIMAL), \<lparr>constraints = [], trace = [Optimize]\<rparr>) \<and>
   (\<exists>lay m m' X perimeter W H x y w h status.
     (4, 1, 1, [0], [0], [1], [1], OPTIMAL) = (perimeter, W, H, x, y, w, h, status) \<and>
     build 1 0 60 = (lay, m) \<and>
     compile lay 0 (constraints \<lparr>constraints = [], trace = []\<rparr>) m = Inr m' \<and>
     (\<lambda>m. (OPTIMAL, Some (\<lambda>v. if v < 4 then 1 else (0::real)))) m' = (status, Some X) \<and>
     perimeter = 2 * (W + H) \<and> W = X (var_W lay) \<and> H = X (var_H lay) \<and>
     int (length x) = 1 \<and> int (length y) = 1 \<and> int (length w) = 1 \<and> int (length h) = 1 \<and>
     (\<forall>i < length x. x ! i = X (var_x lay ! i) \<and> y ! i = X (var_y lay ! i) \<and>
                      w ! i = X (var_w lay ! i) \<and> h ! i = X (var_h lay ! i)) \<and>
     constraints \<lparr>constraints = [], trace = [Optimize]\<rparr> =
       constraints \<lparr>constraints = [], trace = []\<rparr>)"
proof -
  have n: "(0::int) \<le> 1"
    by simp
  have s: "solve (\<lambda>m. (OPTIMAL, Some (\<lambda>v. if v < 4 then 1 else (0::real)))) 1 0 60
       \<lparr>constraints = [], trace = []\<rparr> =
     (Inr (4, 1, 1, [0], [0], [1], [1], OPTIMAL), \<lparr>constraints = [], trace = [Optimize]\<rparr>)"
    by (simp add: solve_def build_1 extract_result_def)
  from result_shape[OF n s] n s show ?thesis
    by (intro conjI)
qed

section \<open>The matcher against the grammar\<close>




lemma starts_with_iff: "starts_with l s \<longleftrightarrow> (\<exists>t. s = l @ t)"
proof
  assume "starts_with l s"
  then have "s = l @ drop (length l) s"
    by (metis append_take_drop_id starts_with_def)
  then show "\<exists>t. s = l @ t" ..
next
  assume "\<exists>t. s = l @ t"
  then show "starts_with l s"
    by (auto simp: starts_with_def)
qed

lemma starts_with_append [simp]: "starts_with l (l @ t)"
  by (simp add: starts_with_def)



lemma first_some_Cons_Some: "x = Some y \<Longrightarrow> first_some (x # xs) = Some y"
  by simp

lemma first_some_Cons_None: "x = None \<Longrightarrow> first_some (x # xs) = first_some xs"
  by simp



lemma greedy_lens_Suc:
  "length (takeWhile P s) = Suc n \<Longrightarrow> greedy_lens P s = Suc n # rev [1..<Suc n]"
  by (simp add: greedy_lens_def)








lemma grammar_class_iff:
  "(case gs of [] \<Rightarrow> False
    | g # gs' \<Rightarrow> g \<noteq> [] \<and> list_all P g \<and> starts_with g s \<and> G (drop (length g) s) gs') \<longleftrightarrow>
   (\<exists>g gs' t. gs = g # gs' \<and> s = g @ t \<and> g \<noteq> [] \<and> list_all P g \<and> G t gs')"
  by (cases gs) (auto simp: starts_with_iff)

lemma grammar_Lit: "grammar (Lit l # r) s gs \<longleftrightarrow> (\<exists>t. s = l @ t \<and> grammar r t gs)"
  by (auto simp: starts_with_iff)

lemma grammar_Digits:
  "grammar (Digits # r) s gs \<longleftrightarrow>
   (\<exists>g gs' t. gs = g # gs' \<and> s = g @ t \<and> g \<noteq> [] \<and> list_all is_digit g \<and> grammar r t gs')"
  unfolding grammar.simps by (rule grammar_class_iff)

lemma grammar_Floaty:
  "grammar (Floaty # r) s gs \<longleftrightarrow>
   (\<exists>g gs' t. gs = g # gs' \<and> s = g @ t \<and> g \<noteq> [] \<and> list_all is_float_char g \<and>
      grammar r t gs')"
  unfolding grammar.simps by (rule grammar_class_iff)

lemma grammar_Alt:
  "grammar (Alt alts # r) s gs \<longleftrightarrow>
   (\<exists>g gs' t. gs = g # gs' \<and> s = g @ t \<and> g \<in> set alts \<and> grammar r t gs')"
  by (cases gs) (auto simp: starts_with_iff)

lemma re_match_Lit: "re_match (Lit l # r) (l @ t) = re_match r t"
  by simp





















lemma grammar_groups:
  "grammar pat s gs \<Longrightarrow>
   list_all2 (\<lambda>c g. c = CInt \<longrightarrow> g \<noteq> [] \<and> list_all is_digit g) (group_convs pat) gs"
proof (induction pat arbitrary: s gs)
  case Nil
  then show ?case by simp
next
  case (Cons it r)
  show ?case
  proof (cases it)
    case (Lit l)
    from Cons.prems have "grammar (Lit l # r) s gs"
      unfolding Lit .
    then obtain t where "grammar r t gs"
      unfolding grammar_Lit by blast
    from Cons.IH[OF this] show ?thesis
      by (simp add: Lit)
  next
    case Digits
    from Cons.prems have "grammar (Digits # r) s gs"
      unfolding Digits .
    then obtain g gs' t where "gs = g # gs'" "g \<noteq> []" "list_all is_digit g" "grammar r t gs'"
      unfolding grammar_Digits by blast
    with Cons.IH[of t gs'] show ?thesis
      by (simp add: Digits)
  next
    case Floaty
    from Cons.prems have "grammar (Floaty # r) s gs"
      unfolding Floaty .
    then obtain g gs' t where "gs = g # gs'" "grammar r t gs'"
      unfolding grammar_Floaty by blast
    with Cons.IH[of t gs'] show ?thesis
      by (simp add: Floaty)
  next
    case (Alt alts)
    from Cons.prems have "grammar (Alt alts # r) s gs"
      unfolding Alt .
    then obtain g gs' t where "gs = g # gs'" "grammar r t gs'"
      unfolding grammar_Alt by blast
    with Cons.IH[of t gs'] show ?thesis
      by (simp add: Alt)
  qed
qed




end
